theory Spec2Isabelle
  imports Complex_Main "HOL-Library.Word" "HOL-Library.Log_Nat"
begin

section \<open>JavaScript values used by the query pipeline and the chunker\<close>

text \<open>
  A JavaScript string is a sequence of UTF-16 code units, and \<open>length\<close>, \<open>slice\<close>,
  \<open>substring\<close>, \<open>lastIndexOf\<close> and \<open>trim\<close> all count code units. Strings are therefore
  lists of 16-bit words; \<open>js\<close> turns an ASCII literal into such a list.

  A number is an IEEE 754 double, given here by its exact value, a rational: the
  comparison of two doubles is the comparison of their values. Where the source
  reads a decimal literal, multiplies, divides or adds, the exact result is rounded
  to the nearest double by \<open>to_double\<close>. Positions in a string, \<open>chunkSize\<close>, \<open>overlap\<close>
  and \<open>topK\<close> are integers (below \<open>2^53\<close> in size, so that they are doubles too).
\<close>

type_synonym jsstring = "16 word list"

definition js :: "string \<Rightarrow> jsstring" where
  "js s = map (\<lambda>c. of_nat (of_char c)) s"

text \<open>
  \<open>String.prototype.trim\<close> removes WhiteSpace and LineTerminator code units from both
  ends: TAB, LF, VT, FF, CR, SP, NBSP, U+1680, U+2000..U+200A, U+2028, U+2029, U+202F,
  U+205F, U+3000 and U+FEFF.
\<close>

definition is_ws :: "16 word \<Rightarrow> bool" where
  "is_ws c \<longleftrightarrow>
     c = 9 \<or> c = 10 \<or> c = 11 \<or> c = 12 \<or> c = 13 \<or> c = 32 \<or> c = 160 \<or> c = 5760 \<or>
     (8192 \<le> c \<and> c \<le> 8202) \<or> c = 8232 \<or> c = 8233 \<or> c = 8239 \<or> c = 8287 \<or>
     c = 12288 \<or> c = 65279"

definition trim :: "jsstring \<Rightarrow> jsstring" where
  "trim s = rev (dropWhile is_ws (rev (dropWhile is_ws s)))"

text \<open>
  \<open>s.slice(from, to)\<close>: a negative index counts from the end, and both indices are
  clamped to \<open>0 .. length\<close>. \<open>s.substring(0, n)\<close> for \<open>n \<ge> 0\<close> is the first \<open>n\<close> code
  units.
\<close>

definition slice_index :: "jsstring \<Rightarrow> int \<Rightarrow> nat" where
  "slice_index s i =
     (if i < 0 then nat (max (int (length s) + i) 0) else nat (min i (int (length s))))"

definition slice_string :: "jsstring \<Rightarrow> int \<Rightarrow> int \<Rightarrow> jsstring" where
  "slice_string s from to =
     (let a = slice_index s from; b = slice_index s to in take (b - a) (drop a s))"

definition substring0 :: "jsstring \<Rightarrow> nat \<Rightarrow> jsstring" where
  "substring0 s n = take n s"

text \<open>\<open>parts.join(sep)\<close> on an array of strings.\<close>

fun join :: "jsstring \<Rightarrow> jsstring list \<Rightarrow> jsstring" where
  "join sep [] = []"
| "join sep [p] = p"
| "join sep (p # q # ps) = p @ sep @ join sep (q # ps)"

subsection \<open>Double arithmetic\<close>

text \<open>
  Rounding to the nearest double, ties to the even significand: a non-zero \<open>x\<close>
  with \<open>2^e \<le> |x| < 2^(e+1)\<close> is rounded to a multiple of \<open>2^(e-52)\<close>. The exponent is
  not bounded, so overflow and subnormal numbers are left out: no value of this
  program is that large or that small.
\<close>

definition round_half_even :: "rat \<Rightarrow> int" where
  "round_half_even q =
     (let f = \<lfloor>q\<rfloor>; r = q - of_int f
      in if r < 1 / 2 then f else if 1 / 2 < r then f + 1 else if even f then f else f + 1)"

text \<open>The \<open>e\<close> with \<open>2^e \<le> x < 2^(e+1)\<close>, for a positive \<open>x\<close>.\<close>

definition binary_exponent :: "rat \<Rightarrow> int" where
  "binary_exponent x = (if 1 \<le> x then bitlen \<lfloor>x\<rfloor> - 1 else - bitlen (\<lceil>1 / x\<rceil> - 1))"

definition ulp :: "rat \<Rightarrow> rat" where
  "ulp x =
     (let e = binary_exponent \<bar>x\<bar>
      in if 52 \<le> e then 2 ^ nat (e - 52) else 1 / 2 ^ nat (52 - e))"

definition to_double :: "rat \<Rightarrow> rat" where
  "to_double x = (if x = 0 then 0 else of_int (round_half_even (x / ulp x)) * ulp x)"

subsection \<open>Printing numbers\<close>

definition digit :: "nat \<Rightarrow> 16 word" where
  "digit d = of_nat (48 + d)"

fun digits :: "nat \<Rightarrow> jsstring" where
  "digits n = (if n < 10 then [digit n] else digits (n div 10) @ [digit (n mod 10)])"

declare digits.simps [simp del]

text \<open>An integer in a template literal or under \<open>toString()\<close>: decimal, with a sign.\<close>

definition int_to_string :: "int \<Rightarrow> jsstring" where
  "int_to_string i = (if i < 0 then js ''-'' @ digits (nat (- i)) else digits (nat i))"

text \<open>
  \<open>x.toFixed(4)\<close>: the sign of \<open>x\<close>, then the integer \<open>n\<close> nearest to \<open>|x| * 10^4\<close>
  (the larger one on a tie) printed with four digits after the point.
\<close>

definition pad4 :: "nat \<Rightarrow> jsstring" where
  "pad4 n = [digit (n div 1000 mod 10), digit (n div 100 mod 10), digit (n div 10 mod 10), digit (n mod 10)]"

definition toFixed4 :: "rat \<Rightarrow> jsstring" where
  "toFixed4 x =
     (let n = nat \<lfloor>\<bar>x\<bar> * 10000 + 1 / 2\<rfloor>
      in (if x < 0 then js ''-'' else []) @ digits (n div 10000) @ js ''.'' @ pad4 (n mod 10000))"

text \<open>\<open>Math.round(x)\<close> is \<open>floor(x + 0.5)\<close>.\<close>

definition Math_round :: "rat \<Rightarrow> int" where
  "Math_round x = \<lfloor>x + 1 / 2\<rfloor>"

text \<open>
  The double nearest to \<open>n / 1000\<close> in a template literal: the shortest decimal that
  reads back as that double, which is \<open>n / 1000\<close> itself, the integer part and up to
  three decimals with the trailing zeros removed.
\<close>

definition frac3 :: "nat \<Rightarrow> jsstring" where
  "frac3 f =
     (if f mod 10 \<noteq> 0 then [digit (f div 100), digit (f div 10 mod 10), digit (f mod 10)]
      else if f div 10 mod 10 \<noteq> 0 then [digit (f div 100), digit (f div 10 mod 10)]
      else [digit (f div 100)])"

definition thousandth_to_string :: "int \<Rightarrow> jsstring" where
  "thousandth_to_string n =
     (let a = nat \<bar>n\<bar>
      in (if n < 0 then js ''-'' else []) @ digits (a div 1000) @
         (if a mod 1000 = 0 then [] else js ''.'' @ frac3 (a mod 1000)))"

section \<open>Query handling (queryHandling.js)\<close>

subsection \<open>Configuration and system prompts\<close>

definition DEFAULT_TOP_K :: int where
  "DEFAULT_TOP_K = 8"

definition DEFAULT_SCORE_THRESHOLD :: rat where
  "DEFAULT_SCORE_THRESHOLD = to_double (72 / 100)"

definition MAX_CONTEXT_CHARS :: nat where
  "MAX_CONTEXT_CHARS = 1500"

text \<open>The two policies are fixed texts; what matters here is only that they differ.\<close>

datatype system_prompt = SYSTEM_PROMPT_DB_ONLY | SYSTEM_PROMPT_HYBRID

subsection \<open>Collaborators\<close>

text \<open>
  Every \<open>throw\<close> of the source is a value of \<open>error\<close>; a collaborator that rejects
  (network failure, a store or index error) is \<open>UpstreamError\<close>.
\<close>

datatype error =
    EmbeddingApiError
  | GeminiApiError
  | SearchApiError
  | CredentialsError
  | TypeError
  | ModeError
  | UpstreamError

text \<open>
  A \<open>fetch\<close> response: \<open>ok\<close>, and the part of the parsed body the code reads, absent
  when the body does not have it (reading it then throws a TypeError).
\<close>

record 'a response =
  ok :: bool
  body :: "'a option"

type_synonym vector = "rat list"

text \<open>A match of the vector index: the vector's id (a string) and its similarity.\<close>

record index_match =
  match_id :: jsstring
  match_score :: rat

text \<open>
  A row of the table \<open>pdfs\<close>: the integer key, the chunk text, and the nullable
  columns the code reads.
\<close>

record doc_row =
  row_id :: int
  row_text :: jsstring
  filename :: "jsstring option"
  chunk_index :: "int option"
  total_chunks :: "int option"

record search_item =
  title :: jsstring
  link :: jsstring
  snippet :: jsstring

text \<open>
  The environment \<open>env\<close>: the two search credentials and the five services. The
  embedding service is called with the text, the vector index with the query vector
  and \<open>topK\<close> (its answer holds \<open>matches\<close>, possibly undefined), the database with the
  bound ids (its answer holds \<open>results\<close>, possibly undefined), the completion service
  with the prompt (its answer holds the text of the first candidate and is kept whole
  as \<open>raw\<close>), the search service with the query.
\<close>

record 'raw env =
  GOOGLE_SEARCH_API_KEY :: "jsstring option"
  GOOGLE_CSE_ID :: "jsstring option"
  embed_fetch :: "jsstring \<Rightarrow> error + vector response"
  VECTORIZE_query :: "vector \<Rightarrow> int \<Rightarrow> error + index_match list option"
  database_run :: "jsstring list \<Rightarrow> error + doc_row list option"
  gemini_fetch :: "jsstring \<Rightarrow> error + (jsstring \<times> 'raw) response"
  search_fetch :: "jsstring \<Rightarrow> error + search_item list option response"

text \<open>A string is truthy when it is neither null nor empty.\<close>

definition truthy :: "jsstring option \<Rightarrow> bool" where
  "truthy s \<longleftrightarrow> (case s of None \<Rightarrow> False | Some t \<Rightarrow> t \<noteq> [])"

subsection \<open>Retrieval\<close>

definition generateEmbeddings :: "jsstring \<Rightarrow> 'raw env \<Rightarrow> error + vector" where
  "generateEmbeddings txt env =
     (case embed_fetch env txt of
        Inl e \<Rightarrow> Inl e
      | Inr response \<Rightarrow>
          if \<not> ok response then Inl EmbeddingApiError
          else (case body response of None \<Rightarrow> Inl TypeError | Some values \<Rightarrow> Inr values))"

text \<open>
  The metadata of a match. \<open>retrieveDocs\<close> always sets the id, to the key of the row;
  a match built elsewhere may lack it.
\<close>

record metadata =
  meta_id :: "int option"
  source :: "jsstring option"
  meta_chunk_index :: "int option"
  meta_total_chunks :: "int option"

record document =
  page_content :: jsstring
  metadata :: metadata

record match =
  document :: document
  score :: rat

definition make_match :: "doc_row \<Rightarrow> rat \<Rightarrow> match" where
  "make_match doc s =
     \<lparr>document = \<lparr>page_content = row_text doc,
                   metadata = \<lparr>meta_id = Some (row_id doc), source = filename doc,
                               meta_chunk_index = chunk_index doc,
                               meta_total_chunks = total_chunks doc\<rparr>\<rparr>,
      score = s\<rparr>"

text \<open>
  The loop over \<open>vectorQuery.matches\<close>: the first row whose id, printed, is the
  match's id; a match without a row pushes nothing.
\<close>

fun combine_matches :: "index_match list \<Rightarrow> doc_row list \<Rightarrow> match list" where
  "combine_matches [] results = []"
| "combine_matches (m # ms) results =
     (case find (\<lambda>r. int_to_string (row_id r) = match_id m) results of
        None \<Rightarrow> combine_matches ms results
      | Some doc \<Rightarrow> make_match doc (match_score m) # combine_matches ms results)"

definition retrieveDocs :: "jsstring \<Rightarrow> int \<Rightarrow> 'raw env \<Rightarrow> error + match list" where
  "retrieveDocs query topK env =
     (case generateEmbeddings query env of
        Inl e \<Rightarrow> Inl e
      | Inr queryEmbeddings \<Rightarrow>
          (case VECTORIZE_query env queryEmbeddings topK of
             Inl e \<Rightarrow> Inl e
           | Inr None \<Rightarrow> Inr []
           | Inr (Some matches) \<Rightarrow>
               if length matches = 0 then Inr []
               else (case database_run env (map match_id matches) of
                       Inl e \<Rightarrow> Inl e
                     | Inr None \<Rightarrow> Inr []
                     | Inr (Some results) \<Rightarrow> Inr (combine_matches matches results))))"

subsection \<open>Context building\<close>

record provenance_entry =
  prov_id :: "int option"
  prov_score :: rat
  prov_source :: "jsstring option"

text \<open>The marker appended to a truncated text: a space and U+2026.\<close>

definition ellipsis :: jsstring where
  "ellipsis = [32, 8230]"

definition truncate_text :: "nat \<Rightarrow> jsstring \<Rightarrow> jsstring" where
  "truncate_text includeLimitChars page =
     (let t = trim page
      in if length t > includeLimitChars then substring0 t includeLimitChars @ ellipsis else t)"

text \<open>
  One element of \<open>parts\<close>; \<open>i\<close> is the loop index. \<open>id || 'unknown'\<close> takes the fallback
  when the id is falsy: absent, or the number 0.
\<close>

definition context_part :: "nat \<Rightarrow> nat \<Rightarrow> match \<Rightarrow> jsstring" where
  "context_part includeLimitChars i m =
     js ''--- DOC '' @ digits (i + 1) @ js '' (id='' @
     (case meta_id (metadata (document m)) of
        None \<Rightarrow> js ''unknown''
      | Some k \<Rightarrow> if k = 0 then js ''unknown'' else int_to_string k) @
     js '', score='' @ toFixed4 (score m) @ js '') ---'' @ [10] @
     truncate_text includeLimitChars (page_content (document m)) @ [10]"

definition provenance_of :: "match \<Rightarrow> provenance_entry" where
  "provenance_of m =
     \<lparr>prov_id = meta_id (metadata (document m)), prov_score = score m,
      prov_source = source (metadata (document m))\<rparr>"

fun context_parts :: "nat \<Rightarrow> nat \<Rightarrow> match list \<Rightarrow> jsstring list" where
  "context_parts includeLimitChars i [] = []"
| "context_parts includeLimitChars i (m # ms) =
     context_part includeLimitChars i m # context_parts includeLimitChars (i + 1) ms"

definition buildContextSnippet :: "match list \<Rightarrow> nat \<Rightarrow> jsstring \<times> provenance_entry list" where
  "buildContextSnippet matches includeLimitChars =
     (join [10, 10] (context_parts includeLimitChars 0 matches), map provenance_of matches)"

subsection \<open>The completion service\<close>

definition prompt_text :: "system_prompt \<Rightarrow> jsstring" where
  \<open>prompt_text p =
     (case p of
        SYSTEM_PROMPT_DB_ONLY \<Rightarrow>
          [10] @ js ''You are an assistant that MUST ONLY use the provided documents below to answer the user's question.'' @
          [10] @ js ''Do NOT use any external knowledge beyond these documents. If the documents do NOT contain enough'' @
          [10] @ js ''information to answer the question, reply exactly: "NOT_IN_DB". Provide a short justification'' @
          [10] @ js ''(one sentence) referencing which documents you used, and include the doc ids used.'' @ [10]
      | SYSTEM_PROMPT_HYBRID \<Rightarrow>
          [10] @ js ''You are an assistant that SHOULD PRIORITIZE the provided vector_db tool when answering.'' @
          [10] @ js ''You MAY use external knowledge and the google_search to help if the vector_db doesn't fully answer the question,'' @
          [10] @ js ''- Rephrase the user's query if needed before calling google_search, but give priority to the vector_db results. '' @
          [10] @ js ''- When using vector_db content, you MUST cite the doc id(s).'' @
          [10] @ js ''- If the vector_db is sufficient, do not add external facts unless they are directly relevant.'' @ [10])\<close>

definition build_prompt :: "system_prompt \<Rightarrow> jsstring \<Rightarrow> jsstring \<Rightarrow> jsstring" where
  "build_prompt systemPrompt userQuery context =
     prompt_text systemPrompt @ [10, 10] @ js ''CONTEXT:'' @ [10] @ context @ [10, 10] @
     js ''USER QUERY:'' @ [10] @ userQuery @ [10, 10] @ js ''Answer:''"

definition callGeminiWithContext ::
  "system_prompt \<Rightarrow> jsstring \<Rightarrow> jsstring \<Rightarrow> 'raw env \<Rightarrow> error + jsstring \<times> 'raw" where
  "callGeminiWithContext systemPrompt userQuery context env =
     (case gemini_fetch env (build_prompt systemPrompt userQuery context) of
        Inl e \<Rightarrow> Inl e
      | Inr response \<Rightarrow>
          if \<not> ok response then Inl GeminiApiError
          else (case body response of None \<Rightarrow> Inl TypeError | Some (txt, data) \<Rightarrow> Inr (txt, data)))"

subsection \<open>Tools\<close>

datatype doc_id = IdNumber int | IdString jsstring

record formatted_result =
  doc_id :: doc_id
  fscore :: rat
  fsource :: jsstring
  fsnippet :: jsstring

definition format_result :: "nat \<Rightarrow> match \<Rightarrow> formatted_result" where
  "format_result i m =
     \<lparr>doc_id = (case meta_id (metadata (document m)) of
                 None \<Rightarrow> IdString (js ''unknown_'' @ digits i)
               | Some k \<Rightarrow> if k = 0 then IdString (js ''unknown_'' @ digits i) else IdNumber k),
      fscore = to_double (of_int (Math_round (to_double (score m * 1000))) / 1000),
      fsource = (if truthy (source (metadata (document m))) then the (source (metadata (document m)))
                 else js ''unknown''),
      fsnippet = substring0 (page_content (document m)) 300 @ js ''...''\<rparr>"

fun format_results :: "nat \<Rightarrow> match list \<Rightarrow> formatted_result list" where
  "format_results i [] = []"
| "format_results i (m # ms) = format_result i m # format_results (i + 1) ms"

text \<open>The \<open>catch\<close> of \<open>dbQueryTool\<close> turns every failure of retrieval into no results.\<close>

definition dbQueryTool :: "jsstring \<Rightarrow> int \<Rightarrow> 'raw env \<Rightarrow> formatted_result list" where
  "dbQueryTool query topK env =
     (case retrieveDocs query topK env of
        Inl e \<Rightarrow> []
      | Inr results \<Rightarrow> format_results 0 results)"

text \<open>The body of the \<open>try\<close> of \<open>googleSearchTool\<close>, and the function with its \<open>catch\<close>.\<close>

definition googleSearchTool_try :: "jsstring \<Rightarrow> 'raw env \<Rightarrow> error + search_item list" where
  "googleSearchTool_try query env =
     (if \<not> truthy (GOOGLE_SEARCH_API_KEY env) \<or> \<not> truthy (GOOGLE_CSE_ID env) then Inl CredentialsError
      else (case search_fetch env query of
              Inl e \<Rightarrow> Inl e
            | Inr response \<Rightarrow>
                if \<not> ok response then Inl SearchApiError
                else (case body response of
                        None \<Rightarrow> Inl TypeError
                      | Some None \<Rightarrow> Inr []
                      | Some (Some items) \<Rightarrow>
                          Inr (map (\<lambda>item. \<lparr>title = title item, link = link item,
                                             snippet = snippet item\<rparr>) items))))"

definition googleSearchTool :: "jsstring \<Rightarrow> 'raw env \<Rightarrow> search_item list" where
  "googleSearchTool query env =
     (case googleSearchTool_try query env of Inl e \<Rightarrow> [] | Inr items \<Rightarrow> items)"

subsection \<open>The agent\<close>

definition NOT_IN_DB :: jsstring where
  "NOT_IN_DB = js ''NOT_IN_DB''"

definition doc_id_to_string :: "doc_id \<Rightarrow> jsstring" where
  "doc_id_to_string d = (case d of IdNumber n \<Rightarrow> int_to_string n | IdString s \<Rightarrow> s)"

text \<open>
  \<open>r.score\<close> is the double nearest to some \<open>n / 1000\<close>, and is printed as that
  \<open>n / 1000\<close>.
\<close>

definition number_to_string :: "rat \<Rightarrow> jsstring" where
  "number_to_string x = thousandth_to_string (Math_round (x * 1000))"

definition render_db_result :: "formatted_result \<Rightarrow> jsstring" where
  "render_db_result r =
     js ''Doc ID: '' @ doc_id_to_string (doc_id r) @ js '', Source: '' @ fsource r @
     js '', Score: '' @ number_to_string (fscore r) @ [10] @ fsnippet r"

definition render_web_result :: "search_item \<Rightarrow> jsstring" where
  "render_web_result r = title r @ [10] @ snippet r @ [10] @ link r"

definition db_block :: "formatted_result list \<Rightarrow> jsstring" where
  "db_block dbResults =
     (if length dbResults > 0
      then js ''Database Results:'' @ [10] @ join [10, 10] (map render_db_result dbResults) @ [10, 10]
      else [])"

definition needs_web :: "formatted_result list \<Rightarrow> bool" where
  "needs_web dbResults \<longleftrightarrow>
     (case dbResults of [] \<Rightarrow> True | r # rs \<Rightarrow> fscore r < DEFAULT_SCORE_THRESHOLD)"

definition web_block :: "search_item list \<Rightarrow> jsstring" where
  "web_block webResults =
     (if length webResults > 0
      then js ''Web Search Results:'' @ [10] @ join [10, 10] (map render_web_result webResults)
      else [])"

text \<open>The context that the hybrid branch of \<open>runAgent\<close> assembles.\<close>

definition hybrid_context :: "jsstring \<Rightarrow> 'raw env \<Rightarrow> formatted_result list \<Rightarrow> jsstring" where
  "hybrid_context query env dbResults =
     db_block dbResults @
     (if needs_web dbResults then web_block (googleSearchTool query env) else [])"

definition runAgent :: "jsstring \<Rightarrow> jsstring \<Rightarrow> 'raw env \<Rightarrow> error + jsstring" where
  "runAgent query mode env =
     (let dbResults = dbQueryTool query 5 env
      in if mode = js ''db-only'' then
           (case dbResults of
              [] \<Rightarrow> Inr NOT_IN_DB
            | r # rs \<Rightarrow>
                if fscore r < DEFAULT_SCORE_THRESHOLD then Inr NOT_IN_DB
                else (case callGeminiWithContext SYSTEM_PROMPT_DB_ONLY query
                             (join [10, 10] (map render_db_result dbResults)) env of
                        Inl e \<Rightarrow> Inl e
                      | Inr (txt, data) \<Rightarrow> Inr txt))
         else (case callGeminiWithContext SYSTEM_PROMPT_HYBRID query
                      (hybrid_context query env dbResults) env of
                 Inl e \<Rightarrow> Inl e
               | Inr (txt, data) \<Rightarrow> Inr txt))"

subsection \<open>The main query function\<close>

text \<open>
  What \<open>answerQuery\<close> returns: \<open>provenance\<close> and \<open>raw\<close> are absent from the object in
  the branches that do not set them.
\<close>

record 'raw query_result =
  answer :: jsstring
  provenance :: "provenance_entry list option"
  raw :: "'raw option"

definition answerQuery ::
  "jsstring \<Rightarrow> jsstring \<Rightarrow> int \<Rightarrow> rat \<Rightarrow> 'raw env \<Rightarrow> error + 'raw query_result" where
  "answerQuery query mode topK scoreThreshold env =
     (if mode = js ''db-only'' then
        (case retrieveDocs query topK env of
           Inl e \<Rightarrow> Inl e
         | Inr [] \<Rightarrow> Inr \<lparr>answer = NOT_IN_DB, provenance = Some [], raw = None\<rparr>
         | Inr (m # ms) \<Rightarrow>
             (let topScore = score m;
                  (contextText, prov) = buildContextSnippet (m # ms) MAX_CONTEXT_CHARS
              in if topScore < scoreThreshold
                 then Inr \<lparr>answer = NOT_IN_DB, provenance = Some prov, raw = None\<rparr>
                 else (case callGeminiWithContext SYSTEM_PROMPT_DB_ONLY query contextText env of
                         Inl e \<Rightarrow> Inl e
                       | Inr (txt, data) \<Rightarrow>
                           Inr \<lparr>answer = txt, provenance = Some prov, raw = Some data\<rparr>)))
      else if mode = js ''hybrid'' then
        (case runAgent query mode env of
           Inl e \<Rightarrow> Inl e
         | Inr txt \<Rightarrow> Inr \<lparr>answer = txt, provenance = None, raw = None\<rparr>)
      else Inl ModeError)"

subsection \<open>The query endpoint (GET /query)\<close>

datatype relevance = High | Medium | Low

record source_detail =
  docId :: "int option"
  detail_source :: "jsstring option"
  detail_score :: rat
  relevance :: relevance

definition source_detail_of :: "provenance_entry \<Rightarrow> source_detail" where
  "source_detail_of s =
     \<lparr>docId = prov_id s, detail_source = prov_source s, detail_score = prov_score s,
      relevance = (if prov_score s > to_double (8 / 10) then High
                   else if prov_score s > to_double (6 / 10) then Medium else Low)\<rparr>"

text \<open>The JSON body of the answer, without its timestamp.\<close>

record query_response =
  resp_query :: jsstring
  resp_answer :: jsstring
  sources :: "provenance_entry list"
  resp_mode :: jsstring
  sourceDetails :: "source_detail list option"

datatype http_reply = Ok200 query_response | Error500 error

text \<open>
  The handler, from the parsed parameters: an absent or empty \<open>text\<close> or \<open>mode\<close>, and
  a \<open>topK\<close> or \<open>scoreThreshold\<close> that is absent, not a number or zero, take the default.
\<close>

definition query_handler ::
  "jsstring option \<Rightarrow> jsstring option \<Rightarrow> int option \<Rightarrow> rat option \<Rightarrow> 'raw env \<Rightarrow> http_reply" where
  "query_handler text_param mode_param topK_param threshold_param env =
     (let question = (if truthy text_param then the text_param
                      else js ''What is the square root of 9?'');
          mode = (if truthy mode_param then the mode_param else js ''hybrid'');
          topK = (case topK_param of None \<Rightarrow> 8 | Some k \<Rightarrow> if k = 0 then 8 else k);
          scoreThreshold = (case threshold_param of None \<Rightarrow> to_double (72 / 100)
                            | Some t \<Rightarrow> if t = 0 then to_double (72 / 100) else t)
      in case answerQuery question mode topK scoreThreshold env of
           Inl e \<Rightarrow> Error500 e
         | Inr result \<Rightarrow>
             Ok200 \<lparr>resp_query = question, resp_answer = answer result,
                    sources = (case provenance result of None \<Rightarrow> [] | Some p \<Rightarrow> p),
                    resp_mode = mode,
                    sourceDetails =
                      (case provenance result of
                         None \<Rightarrow> None
                       | Some p \<Rightarrow> if length p > 0 then Some (map source_detail_of p) else None)\<rparr>)"

section \<open>The chunker (RAGWorkflow.chunkText)\<close>

text \<open>
  \<open>s.lastIndexOf(c, pos)\<close> for a one-character \<open>c\<close>: \<open>pos\<close> is clamped to
  \<open>0 .. length - 1\<close> and the search runs from there down to index 0; the answer is
  \<open>-1\<close> when no index matches.
\<close>

primrec last_index_from :: "jsstring \<Rightarrow> 16 word \<Rightarrow> nat \<Rightarrow> int" where
  "last_index_from s c 0 = (if 0 < length s \<and> s ! 0 = c then 0 else - 1)"
| "last_index_from s c (Suc k) =
     (if Suc k < length s \<and> s ! Suc k = c then int (Suc k) else last_index_from s c k)"

definition lastIndexOf :: "jsstring \<Rightarrow> 16 word \<Rightarrow> int \<Rightarrow> int" where
  "lastIndexOf s c pos =
     (if s = [] then - 1
      else last_index_from s c (nat (min (max pos 0) (int (length s) - 1))))"

text \<open>
  The body of the loop up to the cut: the end of the window that starts at \<open>start\<close>.
  The code units are \<open>.\<close> (46), \<open>?\<close> (63), \<open>!\<close> (33) and the space (32). The two
  bounds \<open>start + chunkSize * 0.7\<close> and \<open>start + chunkSize * 0.8\<close> are computed in doubles:
  the literal, the product and the sum are each rounded.
\<close>

definition sentence_bound :: "int \<Rightarrow> int \<Rightarrow> rat" where
  "sentence_bound start chunkSize =
     to_double (of_int start + to_double (of_int chunkSize * to_double (7 / 10)))"

definition space_bound :: "int \<Rightarrow> int \<Rightarrow> rat" where
  "space_bound start chunkSize =
     to_double (of_int start + to_double (of_int chunkSize * to_double (8 / 10)))"

definition chunk_end :: "jsstring \<Rightarrow> int \<Rightarrow> int \<Rightarrow> int" where
  "chunk_end txt chunkSize start =
     (let endpos = start + chunkSize
      in if endpos < int (length txt) then
           (let sentenceEnd = lastIndexOf txt 46 endpos;
                questionEnd = lastIndexOf txt 63 endpos;
                exclamationEnd = lastIndexOf txt 33 endpos;
                lastSentenceEnd = max (max sentenceEnd questionEnd) exclamationEnd
            in if of_int lastSentenceEnd > sentence_bound start chunkSize
               then lastSentenceEnd + 1
               else (let lastSpace = lastIndexOf txt 32 endpos
                     in if of_int lastSpace > space_bound start chunkSize
                        then lastSpace else endpos))
         else endpos)"

text \<open>
  The \<open>while\<close> loop, with the window start and the chunks pushed so far as its state.
  The loop need not terminate, so the function is partial: \<open>None\<close> is a run that never
  returns.
\<close>

partial_function (option) chunk_loop ::
  "jsstring \<Rightarrow> int \<Rightarrow> int \<Rightarrow> int \<Rightarrow> jsstring list \<Rightarrow> jsstring list option" where
  "chunk_loop txt chunkSize overlap start chunks =
     (if start < int (length txt) then
        (let endpos = chunk_end txt chunkSize start;
             chunk = trim (slice_string txt start endpos);
             chunks' = (if length chunk > 0 then chunks @ [chunk] else chunks);
             start' = endpos - overlap
         in if start' \<ge> int (length txt) then Some chunks'
            else chunk_loop txt chunkSize overlap start' chunks')
      else Some chunks)"

declare chunk_loop.simps [code]

definition chunkText :: "jsstring \<Rightarrow> int \<Rightarrow> int \<Rightarrow> jsstring list option" where
  "chunkText txt chunkSize overlap =
     (if txt = [] \<or> int (length txt) \<le> chunkSize then Some [txt]
      else chunk_loop txt chunkSize overlap 0 [])"

record chunk_metadata =
  chunk_filename :: jsstring
  chunkIndex :: nat
  totalChunks :: nat
  chunkSize_of :: nat
  originalTextLength :: nat

record chunk_with_metadata =
  chunk_text :: jsstring
  chunk_metadata :: chunk_metadata

definition chunkTextWithMetadata ::
  "jsstring \<Rightarrow> jsstring \<Rightarrow> int \<Rightarrow> int \<Rightarrow> chunk_with_metadata list option" where
  "chunkTextWithMetadata txt fname chunkSize overlap =
     (case chunkText txt chunkSize overlap of
        None \<Rightarrow> None
      | Some chunks \<Rightarrow>
          Some (map (\<lambda>(chunk, index).
                  \<lparr>chunk_text = chunk,
                   chunk_metadata =
                     \<lparr>chunk_filename = fname, chunkIndex = index, totalChunks = length chunks,
                      chunkSize_of = length chunk, originalTextLength = length txt\<rparr>\<rparr>)
                (zip chunks [0..<length chunks])))"

section \<open>Example inputs\<close>

text \<open>
  A store with two rows, and an environment whose index answers with the first
  \<open>topK\<close> of given matches, whose completion service answers with the prompt it was
  given, and whose search service gives a fixed answer.
\<close>

definition example_rows :: "doc_row list" where
  "example_rows =
     [\<lparr>row_id = 8, row_text = js ''Phobos is a moon.'', filename = None,
       chunk_index = Some 0, total_chunks = Some 1\<rparr>,
      \<lparr>row_id = 7, row_text = js '' Mars is red. '', filename = Some (js ''mars.pdf''),
       chunk_index = Some 1, total_chunks = Some 2\<rparr>]"

definition example_env ::
  "index_match list \<Rightarrow> jsstring option \<Rightarrow> (error + search_item list option response) \<Rightarrow> unit env" where
  "example_env ms key web =
     \<lparr>GOOGLE_SEARCH_API_KEY = key, GOOGLE_CSE_ID = Some (js ''cse''),
      embed_fetch = (\<lambda>t. Inr \<lparr>ok = True, body = Some [1 / 2]\<rparr>),
      VECTORIZE_query = (\<lambda>v k. Inr (Some (take (nat k) ms))),
      database_run = (\<lambda>ids. Inr (Some example_rows)),
      gemini_fetch = (\<lambda>p. Inr \<lparr>ok = True, body = Some (p, ())\<rparr>),
      search_fetch = (\<lambda>q. web)\<rparr>"

definition example_item :: search_item where
  "example_item = \<lparr>title = js ''Mars'', link = js ''https://example.org/mars'', snippet = js ''The red planet''\<rparr>"

definition example_match :: "rat \<Rightarrow> index_match" where
  "example_match s = \<lparr>match_id = js ''7'', match_score = s\<rparr>"

definition mars_match :: "rat \<Rightarrow> match" where
  "mars_match s =
     \<lparr>document = \<lparr>page_content = js '' Mars is red. '',
                   metadata = \<lparr>meta_id = Some 7, source = Some (js ''mars.pdf''),
                               meta_chunk_index = Some 1, meta_total_chunks = Some 2\<rparr>\<rparr>,
      score = s\<rparr>"

definition mars_provenance :: "rat \<Rightarrow> provenance_entry" where
  "mars_provenance s = \<lparr>prov_id = Some 7, prov_score = s, prov_source = Some (js ''mars.pdf'')\<rparr>"

definition long_match :: "nat \<Rightarrow> match" where
  "long_match n =
     \<lparr>document = \<lparr>page_content = replicate n 97,
                   metadata = \<lparr>meta_id = Some 12, source = None, meta_chunk_index = None,
                               meta_total_chunks = None\<rparr>\<rparr>,
      score = 1 / 2\<rparr>"

definition anonymous_match :: match where
  "anonymous_match =
     \<lparr>document = \<lparr>page_content = js ''Deimos'',
                   metadata = \<lparr>meta_id = None, source = None, meta_chunk_index = None,
                               meta_total_chunks = None\<rparr>\<rparr>,
      score = 9 / 10\<rparr>"

definition zero_id_match :: match where
  "zero_id_match =
     \<lparr>document = \<lparr>page_content = js ''Phobos'',
                   metadata = \<lparr>meta_id = Some 0, source = None, meta_chunk_index = None,
                               meta_total_chunks = None\<rparr>\<rparr>,
      score = 9 / 10\<rparr>"

definition example_ranking :: "index_match list" where
  "example_ranking =
     [\<lparr>match_id = js ''7'', match_score = 9 / 10\<rparr>,
      \<lparr>match_id = js ''99'', match_score = 8 / 10\<rparr>,
      \<lparr>match_id = js ''8'', match_score = 7 / 10\<rparr>]"

section \<open>Properties of double arithmetic\<close>

lemma floor_rat_numeral: "\<lfloor>(numeral a / numeral b :: rat)\<rfloor> = numeral a div numeral b"
  using floor_divide_of_int_eq [of "numeral a" "numeral b", where ?'a = rat] by simp

lemma ceiling_rat_numeral: "\<lceil>(numeral a / numeral b :: rat)\<rceil> = - ((- numeral a) div numeral b)"
  using ceiling_divide_eq_div [of "numeral a" "numeral b", where ?'a = rat] by simp

lemma floor_rat_neg_numeral: "\<lfloor>- (numeral a / numeral b :: rat)\<rfloor> = (- numeral a) div numeral b"
  using floor_divide_of_int_eq [of "- numeral a" "numeral b", where ?'a = rat] by simp

lemma ceiling_rat_neg_numeral: "\<lceil>- (numeral a / numeral b :: rat)\<rceil> = - (numeral a div numeral b)"
  using ceiling_divide_eq_div [of "- numeral a" "numeral b", where ?'a = rat] by simp

lemmas double_defs = to_double_def ulp_def binary_exponent_def round_half_even_def
  compute_bitlen floor_rat_numeral ceiling_rat_numeral floor_rat_neg_numeral
  ceiling_rat_neg_numeral Let_def

text \<open>The literals of the source, as doubles.\<close>

lemma literal_0_7: "to_double (7 / 10) = 3152519739159347 / 4503599627370496"
  by (simp add: double_defs)

lemma literal_0_8: "to_double (8 / 10) = 3602879701896397 / 4503599627370496"
  by (simp add: double_defs)

lemma literal_0_72: "to_double (72 / 100) = 3242591731706757 / 4503599627370496"
  by (simp add: double_defs)

text \<open>The rounding keeps the sign and is off by at most one part in \<open>2^53\<close>.\<close>

lemma round_half_even_error: "\<bar>of_int (round_half_even q) - q\<bar> \<le> 1 / 2"
proof -
  define f where "f = \<lfloor>q\<rfloor>"
  have f: "of_int f \<le> q" "q < of_int f + 1"
    unfolding f_def by linarith+
  have "round_half_even q = f \<and> q - of_int f \<le> 1 / 2 \<or>
        round_half_even q = f + 1 \<and> 1 / 2 \<le> q - of_int f"
    unfolding round_half_even_def Let_def f_def [symmetric] by auto
  with f show ?thesis
    by (auto simp: abs_if)
qed

lemma round_half_even_nonneg: "0 \<le> q \<Longrightarrow> 0 \<le> round_half_even q"
  unfolding round_half_even_def Let_def by (auto simp: zero_le_floor)

lemma ulp_powi: "ulp x = 2 powi (binary_exponent \<bar>x\<bar> - 52)"
  by (simp add: ulp_def Let_def power_int_def field_simps)

lemma ulp_pos: "0 < ulp x"
  by (simp add: ulp_powi)

lemma to_double_nonneg: "0 \<le> x \<Longrightarrow> 0 \<le> to_double x"
  using ulp_pos [of x] by (simp add: to_double_def round_half_even_nonneg)

lemma binary_exponent_lower:
  assumes "0 < x"
  shows "2 powi binary_exponent x \<le> x"
proof (cases "1 \<le> x")
  case True
  let ?n = "\<lfloor>x\<rfloor>"
  from True have n: "0 < ?n" by simp
  from bitlen_bounds [OF n] have b: "2 ^ nat (bitlen ?n - 1) \<le> ?n" ..
  from n have "1 \<le> bitlen ?n" by (simp add: bitlen_alt_def)
  then have "(2::rat) powi (bitlen ?n - 1) = 2 ^ nat (bitlen ?n - 1)"
    by (simp add: power_int_def)
  also from b have "\<dots> \<le> of_int ?n"
    by (metis of_int_le_iff of_int_numeral of_int_power)
  also have "\<dots> \<le> x" by simp
  finally show ?thesis using True by (simp add: binary_exponent_def)
next
  case False
  let ?c = "\<lceil>1 / x\<rceil>"
  from False assms have "1 < 1 / x" by (simp add: field_simps)
  then have c: "0 < ?c - 1" by linarith
  let ?m = "bitlen (?c - 1)"
  from bitlen_bounds [OF c] have "?c - 1 < 2 ^ nat ?m" ..
  then have "?c \<le> 2 ^ nat ?m" by simp
  then have "(of_int ?c :: rat) \<le> 2 ^ nat ?m"
    by (metis of_int_le_iff of_int_numeral of_int_power)
  moreover have "1 / x \<le> of_int ?c" by simp
  ultimately have "1 / x \<le> 2 ^ nat ?m" by linarith
  with assms have "1 / 2 ^ nat ?m \<le> x"
    by (simp add: field_simps)
  moreover from c have "1 \<le> ?m" by (simp add: bitlen_alt_def)
  then have "(2::rat) powi (- ?m) = 1 / 2 ^ nat ?m"
    by (simp add: power_int_def field_simps)
  ultimately show ?thesis using False by (simp add: binary_exponent_def)
qed

lemma ulp_le:
  assumes "0 < x"
  shows "ulp x \<le> x / 2 ^ 52"
proof -
  have "ulp x = 2 powi binary_exponent x / 2 powi 52"
    using assms by (simp add: ulp_powi power_int_diff)
  also have "\<dots> \<le> x / 2 powi 52"
    using binary_exponent_lower [OF assms] by (simp add: divide_right_mono)
  finally show ?thesis by simp
qed

lemma to_double_error:
  assumes "0 \<le> x"
  shows "\<bar>to_double x - x\<bar> \<le> x / 2 ^ 53"
proof (cases "x = 0")
  case True
  then show ?thesis by (simp add: to_double_def)
next
  case False
  with assms have x: "0 < x" by simp
  let ?u = "ulp x"
  have u: "0 < ?u" by (rule ulp_pos)
  have "to_double x - x = (of_int (round_half_even (x / ?u)) - x / ?u) * ?u"
    using u False by (simp add: to_double_def left_diff_distrib)
  then have "\<bar>to_double x - x\<bar> = \<bar>of_int (round_half_even (x / ?u)) - x / ?u\<bar> * \<bar>?u\<bar>"
    by (simp only: abs_mult)
  also have "\<dots> = \<bar>of_int (round_half_even (x / ?u)) - x / ?u\<bar> * ?u"
    using u by simp
  also have "\<dots> \<le> 1 / 2 * ?u"
    using round_half_even_error [of "x / ?u"] u by (simp add: mult_right_mono)
  also have "\<dots> \<le> 1 / 2 * (x / 2 ^ 52)"
    using ulp_le [OF x] by simp
  finally show ?thesis by simp
qed

section \<open>Properties of the query pipeline\<close>

subsection \<open>Evaluation of the examples\<close>

lemmas fmt_defs = toFixed4_def pad4_def digits.simps digit_def js_def int_to_string_def
  thousandth_to_string_def frac3_def number_to_string_def Math_round_def floor_rat_numeral

lemmas example_defs = example_env_def example_rows_def example_item_def example_match_def
  mars_match_def mars_provenance_def

lemmas retrieve_defs = retrieveDocs_def generateEmbeddings_def make_match_def

lemmas context_defs = buildContextSnippet_def context_part_def truncate_text_def trim_def
  is_ws_def substring0_def ellipsis_def provenance_of_def MAX_CONTEXT_CHARS_def

lemmas agent_defs = runAgent_def dbQueryTool_def format_result_def hybrid_context_def
  db_block_def web_block_def needs_web_def googleSearchTool_def googleSearchTool_try_def
  truthy_def render_db_result_def render_web_result_def doc_id_to_string_def
  DEFAULT_SCORE_THRESHOLD_def callGeminiWithContext_def substring0_def

lemma mode_distinct: "js ''hybrid'' \<noteq> js ''db-only''"
  by (simp add: js_def)

lemma example_retrieve:
  "retrieveDocs q k (example_env [example_match s] key web) =
     (if 0 < k then Inr [mars_match s] else Inr [])"
  by (cases "nat k") (simp_all add: retrieve_defs example_defs fmt_defs)

lemma hybrid_answer:
  "answerQuery query (js ''hybrid'') topK scoreThreshold env =
     (case callGeminiWithContext SYSTEM_PROMPT_HYBRID query
             (hybrid_context query env (dbQueryTool query 5 env)) env of
        Inl e \<Rightarrow> Inl e
      | Inr (txt, data) \<Rightarrow> Inr \<lparr>answer = txt, provenance = None, raw = None\<rparr>)"
  by (simp add: answerQuery_def runAgent_def mode_distinct Let_def split: sum.splits prod.splits)

lemma example_gemini:
  "callGeminiWithContext p q c (example_env ms key web) = Inr (build_prompt p q c, ())"
  by (simp add: callGeminiWithContext_def example_env_def)

lemma example_db_only_answer:
  assumes "0 < k" and "t \<le> s"
  shows "answerQuery q (js ''db-only'') k t (example_env [example_match s] key web) =
     Inr \<lparr>answer = build_prompt SYSTEM_PROMPT_DB_ONLY q
                     (fst (buildContextSnippet [mars_match s] MAX_CONTEXT_CHARS)),
          provenance = Some [mars_provenance s], raw = Some ()\<rparr>"
  using assms
  by (simp add: answerQuery_def example_retrieve example_gemini buildContextSnippet_def
      provenance_of_def mars_match_def mars_provenance_def)

lemma example_hybrid_answer:
  "answerQuery q (js ''hybrid'') k t (example_env ms key web) =
     Inr \<lparr>answer = build_prompt SYSTEM_PROMPT_HYBRID q
                     (hybrid_context q (example_env ms key web)
                        (dbQueryTool q 5 (example_env ms key web))),
          provenance = None, raw = None\<rparr>"
  by (simp add: hybrid_answer example_gemini)

lemma example_db_results:
  "dbQueryTool q 5 (example_env [example_match s] key web) =
     [\<lparr>doc_id = IdNumber 7,
       fscore = to_double (of_int (Math_round (to_double (s * 1000))) / 1000),
       fsource = js ''mars.pdf'', fsnippet = js '' Mars is red. ...''\<rparr>]"
  by (simp add: dbQueryTool_def example_retrieve format_result_def mars_match_def truthy_def
      substring0_def js_def)

lemma example_search:
  "googleSearchTool q (example_env ms (Some (js ''key''))
      (Inr \<lparr>ok = True, body = Some (Some [example_item])\<rparr>)) = [example_item]"
  by (simp add: googleSearchTool_def googleSearchTool_try_def truthy_def example_env_def js_def)

lemma example_no_search:
  "googleSearchTool q (example_env ms None web) = []"
  "googleSearchTool q (example_env ms key (Inl UpstreamError)) = []"
  by (simp_all add: googleSearchTool_def googleSearchTool_try_def truthy_def example_env_def)

lemmas render_defs = hybrid_context_def db_block_def needs_web_def web_block_def
  DEFAULT_SCORE_THRESHOLD_def render_db_result_def render_web_result_def doc_id_to_string_def

text \<open>The database block of the example, for the scores 0.6, 0.7 and 0.9.\<close>

lemma example_db_block:
  "db_block (dbQueryTool q 5 (example_env [example_match (6 / 10)] key web)) =
     js ''Database Results:'' @ [10] @ js ''Doc ID: 7, Source: mars.pdf, Score: 0.6'' @ [10] @
     js '' Mars is red. ...'' @ [10, 10]"
  "db_block (dbQueryTool q 5 (example_env [example_match (7 / 10)] key web)) =
     js ''Database Results:'' @ [10] @ js ''Doc ID: 7, Source: mars.pdf, Score: 0.7'' @ [10] @
     js '' Mars is red. ...'' @ [10, 10]"
  "db_block (dbQueryTool q 5 (example_env [example_match (9 / 10)] key web)) =
     js ''Database Results:'' @ [10] @ js ''Doc ID: 7, Source: mars.pdf, Score: 0.9'' @ [10] @
     js '' Mars is red. ...'' @ [10, 10]"
  unfolding example_db_results by (simp_all add: render_defs fmt_defs double_defs)

lemma example_needs_web:
  "needs_web (dbQueryTool q 5 (example_env [example_match (6 / 10)] key web))"
  "needs_web (dbQueryTool q 5 (example_env [example_match (7 / 10)] key web))"
  "\<not> needs_web (dbQueryTool q 5 (example_env [example_match (9 / 10)] key web))"
  unfolding example_db_results by (simp_all add: render_defs fmt_defs double_defs)

subsection \<open>Database-only mode\<close>

text \<open>
  C1. In db-only mode, once retrieval has returned its matches: with no match the
  result is the sentinel \<open>NOT_IN_DB\<close> with an empty provenance; with a top score
  strictly below the caller's \<open>scoreThreshold\<close> it is the sentinel with the provenance
  of the matches; with a top score at or above the threshold the answer is the text
  that the completion service generated for the assembled context (a failure of that
  service is passed on), together with the provenance and the raw response. The
  example has the threshold 0.72 and the top scores 0.70 and 0.75.
\<close>

theorem answerQuery_db_only:
  assumes "retrieveDocs query topK env = Inr matches"
  shows "(matches = [] \<longrightarrow>
            answerQuery query (js ''db-only'') topK scoreThreshold env =
              Inr \<lparr>answer = NOT_IN_DB, provenance = Some [], raw = None\<rparr>) \<and>
         (matches \<noteq> [] \<and> score (hd matches) < scoreThreshold \<longrightarrow>
            answerQuery query (js ''db-only'') topK scoreThreshold env =
              Inr \<lparr>answer = NOT_IN_DB,
                   provenance = Some (snd (buildContextSnippet matches MAX_CONTEXT_CHARS)),
                   raw = None\<rparr>) \<and>
         (matches \<noteq> [] \<and> scoreThreshold \<le> score (hd matches) \<longrightarrow>
            answerQuery query (js ''db-only'') topK scoreThreshold env =
              (case callGeminiWithContext SYSTEM_PROMPT_DB_ONLY query
                      (fst (buildContextSnippet matches MAX_CONTEXT_CHARS)) env of
                 Inl e \<Rightarrow> Inl e
               | Inr (txt, data) \<Rightarrow>
                   Inr \<lparr>answer = txt,
                        provenance = Some (snd (buildContextSnippet matches MAX_CONTEXT_CHARS)),
                        raw = Some data\<rparr>))"
  using assms
  by (cases matches) (simp_all add: answerQuery_def buildContextSnippet_def split: sum.splits prod.splits)

theorem answerQuery_db_only_witness:
  "answerQuery (js ''q'') (js ''db-only'') 8 (72 / 100)
       (example_env [] None (Inl UpstreamError)) =
     Inr \<lparr>answer = NOT_IN_DB, provenance = Some [], raw = None\<rparr> \<and>
   answerQuery (js ''q'') (js ''db-only'') 8 (72 / 100)
       (example_env [example_match (70 / 100)] None (Inl UpstreamError)) =
     Inr \<lparr>answer = NOT_IN_DB, provenance = Some [mars_provenance (70 / 100)], raw = None\<rparr> \<and>
   answerQuery (js ''q'') (js ''db-only'') 8 (72 / 100)
       (example_env [example_match (75 / 100)] None (Inl UpstreamError)) =
     Inr \<lparr>answer = build_prompt SYSTEM_PROMPT_DB_ONLY (js ''q'')
                     (js ''--- DOC 1 (id=7, score=0.7500) ---'' @ [10] @ js ''Mars is red.'' @ [10]),
          provenance = Some [mars_provenance (75 / 100)], raw = Some ()\<rparr>"
proof -
  let ?env = "\<lambda>ms. example_env ms None (Inl UpstreamError)"
  have r0: "retrieveDocs (js ''q'') 8 (?env []) = Inr []"
    by (simp add: retrieve_defs example_defs)
  have r70: "retrieveDocs (js ''q'') 8 (?env [example_match (70 / 100)]) = Inr [mars_match (70 / 100)]"
    by (simp add: example_retrieve)
  have r75: "retrieveDocs (js ''q'') 8 (?env [example_match (75 / 100)]) = Inr [mars_match (75 / 100)]"
    by (simp add: example_retrieve)
  have s70: "score (mars_match (70 / 100)) < 72 / 100" and s75: "72 / 100 \<le> score (mars_match (75 / 100))"
    by (simp_all add: mars_match_def)
  have g: "callGeminiWithContext SYSTEM_PROMPT_DB_ONLY (js ''q'') c (?env ms) =
             Inr (build_prompt SYSTEM_PROMPT_DB_ONLY (js ''q'') c, ())" for c ms
    by (simp add: callGeminiWithContext_def example_env_def)
  have c0: "answerQuery (js ''q'') (js ''db-only'') 8 (72 / 100) (?env []) =
      Inr \<lparr>answer = NOT_IN_DB, provenance = Some [], raw = None\<rparr>"
    using answerQuery_db_only [OF r0, of "72 / 100"] by simp
  have c70: "answerQuery (js ''q'') (js ''db-only'') 8 (72 / 100) (?env [example_match (70 / 100)]) =
      Inr \<lparr>answer = NOT_IN_DB,
           provenance = Some (snd (buildContextSnippet [mars_match (70 / 100)] MAX_CONTEXT_CHARS)),
           raw = None\<rparr>"
    using answerQuery_db_only [OF r70, of "72 / 100"] s70 by simp
  have c75: "answerQuery (js ''q'') (js ''db-only'') 8 (72 / 100) (?env [example_match (75 / 100)]) =
      Inr \<lparr>answer = build_prompt SYSTEM_PROMPT_DB_ONLY (js ''q'')
                      (fst (buildContextSnippet [mars_match (75 / 100)] MAX_CONTEXT_CHARS)),
           provenance = Some (snd (buildContextSnippet [mars_match (75 / 100)] MAX_CONTEXT_CHARS)),
           raw = Some ()\<rparr>"
    using answerQuery_db_only [OF r75, of "72 / 100"] s75 by (simp add: g)
  show ?thesis
    unfolding c0 c70 c75 by (simp add: context_defs example_defs fmt_defs)
qed


subsection \<open>Hybrid mode\<close>

text \<open>
  C3. In hybrid mode a failure of the web search (a missing credential, a rejected
  request, a response that is not ok or has no readable body) is caught: the search
  tool returns the empty list, no web block is appended, and the answer is what the
  completion service generates from the database block alone.
\<close>

theorem hybrid_search_failure_absorbed:
  assumes "\<not> truthy (GOOGLE_SEARCH_API_KEY env) \<or> \<not> truthy (GOOGLE_CSE_ID env) \<or>
           (\<exists>e. search_fetch env query = Inl e) \<or>
           (\<exists>r. search_fetch env query = Inr r \<and> (\<not> ok r \<or> body r = None))"
  shows "googleSearchTool query env = [] \<and>
         answerQuery query (js ''hybrid'') topK scoreThreshold env =
           (case callGeminiWithContext SYSTEM_PROMPT_HYBRID query
                   (db_block (dbQueryTool query 5 env)) env of
              Inl e \<Rightarrow> Inl e
            | Inr (txt, data) \<Rightarrow> Inr \<lparr>answer = txt, provenance = None, raw = None\<rparr>)"
proof -
  have "\<exists>e. googleSearchTool_try query env = Inl e"
    using assms by (auto simp: googleSearchTool_try_def)
  then have g: "googleSearchTool query env = []"
    by (auto simp: googleSearchTool_def)
  then have "hybrid_context query env dbResults = db_block dbResults" for dbResults
    by (simp add: hybrid_context_def web_block_def)
  with g show ?thesis
    by (simp add: hybrid_answer)
qed

theorem hybrid_search_failure_absorbed_witness:
  "answerQuery (js ''q'') (js ''hybrid'') 8 (72 / 100)
       (example_env [example_match (70 / 100)] None (Inr \<lparr>ok = True, body = Some (Some [example_item])\<rparr>)) =
     Inr \<lparr>answer = build_prompt SYSTEM_PROMPT_HYBRID (js ''q'')
                     (js ''Database Results:'' @ [10] @
                      js ''Doc ID: 7, Source: mars.pdf, Score: 0.7'' @ [10] @
                      js '' Mars is red. ...'' @ [10, 10]),
          provenance = None, raw = None\<rparr> \<and>
   answerQuery (js ''q'') (js ''hybrid'') 8 (72 / 100)
       (example_env [example_match (70 / 100)] (Some (js ''key'')) (Inl UpstreamError)) =
     Inr \<lparr>answer = build_prompt SYSTEM_PROMPT_HYBRID (js ''q'')
                     (js ''Database Results:'' @ [10] @
                      js ''Doc ID: 7, Source: mars.pdf, Score: 0.7'' @ [10] @
                      js '' Mars is red. ...'' @ [10, 10]),
          provenance = None, raw = None\<rparr>"
proof -
  let ?nokey = "example_env [example_match (70 / 100)] None (Inr \<lparr>ok = True, body = Some (Some [example_item])\<rparr>)"
  let ?down = "example_env [example_match (70 / 100)] (Some (js ''key'')) (Inl UpstreamError)"
  have h1: "\<not> truthy (GOOGLE_SEARCH_API_KEY ?nokey) \<or> \<not> truthy (GOOGLE_CSE_ID ?nokey) \<or>
           (\<exists>e. search_fetch ?nokey (js ''q'') = Inl e) \<or>
           (\<exists>r. search_fetch ?nokey (js ''q'') = Inr r \<and> (\<not> ok r \<or> body r = None))"
    by (simp add: example_env_def truthy_def)
  have h2: "\<not> truthy (GOOGLE_SEARCH_API_KEY ?down) \<or> \<not> truthy (GOOGLE_CSE_ID ?down) \<or>
           (\<exists>e. search_fetch ?down (js ''q'') = Inl e) \<or>
           (\<exists>r. search_fetch ?down (js ''q'') = Inr r \<and> (\<not> ok r \<or> body r = None))"
    by (simp add: example_env_def truthy_def)
  have s: "(70 / 100 :: rat) = 7 / 10"
    by simp
  show ?thesis
    using hybrid_search_failure_absorbed [OF h1, of 8 "72 / 100"]
      hybrid_search_failure_absorbed [OF h2, of 8 "72 / 100"]
    unfolding s example_db_block example_gemini by simp
qed

text \<open>
  C10. In hybrid mode, when retrieval finds no match and the search tool returns no
  result, the completion service is still called, with the empty context, and its
  text is the answer: there is no shortcut to the sentinel.
\<close>

theorem hybrid_nothing_found:
  assumes "retrieveDocs query 5 env = Inr []"
    and "googleSearchTool query env = []"
  shows "answerQuery query (js ''hybrid'') topK scoreThreshold env =
           (case callGeminiWithContext SYSTEM_PROMPT_HYBRID query [] env of
              Inl e \<Rightarrow> Inl e
            | Inr (txt, data) \<Rightarrow> Inr \<lparr>answer = txt, provenance = None, raw = None\<rparr>)"
  using assms
  by (simp add: hybrid_answer hybrid_context_def dbQueryTool_def db_block_def web_block_def needs_web_def)

theorem hybrid_nothing_found_witness:
  "answerQuery (js ''q'') (js ''hybrid'') 8 (72 / 100)
       (example_env [] (Some (js ''key'')) (Inr \<lparr>ok = True, body = Some None\<rparr>)) =
     Inr \<lparr>answer = build_prompt SYSTEM_PROMPT_HYBRID (js ''q'') [], provenance = None, raw = None\<rparr>"
proof -
  let ?env = "example_env [] (Some (js ''key'')) (Inr \<lparr>ok = True, body = Some None\<rparr>)"
  have r: "retrieveDocs (js ''q'') 5 ?env = Inr []"
    by (simp add: retrieve_defs example_env_def)
  have w: "googleSearchTool (js ''q'') ?env = []"
    by (simp add: googleSearchTool_def googleSearchTool_try_def truthy_def example_env_def js_def)
  show ?thesis
    using hybrid_nothing_found [OF r w, of 8 "72 / 100"] by (simp add: example_gemini)
qed


lemma combine_matches_scores:
  "map score (combine_matches ms rows) =
     map match_score (filter (\<lambda>m. \<exists>r \<in> set rows. int_to_string (row_id r) = match_id m) ms)"
  by (induction ms) (auto simp: make_match_def find_None_iff find_Some_iff split: option.splits)

lemma combine_matches_rows:
  "x \<in> set (combine_matches ms rows) \<Longrightarrow>
     \<exists>m \<in> set ms. \<exists>r \<in> set rows.
       int_to_string (row_id r) = match_id m \<and> x = make_match r (match_score m)"
  by (induction ms) (auto simp: find_Some_iff nth_mem split: option.splits)

subsection \<open>Retrieval\<close>

text \<open>
  C7. Once the query is embedded, \<open>retrieveDocs\<close> returns the empty list when the index
  reports no match. Otherwise its result is the index's matches that have a row in
  the store (the others are dropped without an error), each with the index's score
  and in the index's order: so it is no longer than the index's answer (at most
  \<open>topK\<close> when the index honours \<open>topK\<close>) and is by descending score when the index's
  answer is.
\<close>

theorem retrieveDocs_ranked:
  assumes "generateEmbeddings query env = Inr v"
  shows "(VECTORIZE_query env v k = Inr None \<or> VECTORIZE_query env v k = Inr (Some []) \<longrightarrow>
            retrieveDocs query k env = Inr []) \<and>
         (\<forall>ms rows.
            VECTORIZE_query env v k = Inr (Some ms) \<and> ms \<noteq> [] \<and>
            database_run env (map match_id ms) = Inr (Some rows) \<longrightarrow>
            (\<exists>result.
               retrieveDocs query k env = Inr result \<and>
               map score result =
                 map match_score
                   (filter (\<lambda>m. \<exists>r \<in> set rows. int_to_string (row_id r) = match_id m) ms) \<and>
               (\<forall>x \<in> set result. \<exists>m \<in> set ms. \<exists>r \<in> set rows.
                  int_to_string (row_id r) = match_id m \<and> x = make_match r (match_score m)) \<and>
               length result \<le> length ms \<and>
               (length ms \<le> nat k \<longrightarrow> length result \<le> nat k) \<and>
               (sorted_wrt (\<ge>) (map match_score ms) \<longrightarrow> sorted_wrt (\<ge>) (map score result))))"
proof (intro conjI allI impI)
  assume "VECTORIZE_query env v k = Inr None \<or> VECTORIZE_query env v k = Inr (Some [])"
  with assms show "retrieveDocs query k env = Inr []"
    by (auto simp: retrieveDocs_def)
next
  fix ms rows
  assume h: "VECTORIZE_query env v k = Inr (Some ms) \<and> ms \<noteq> [] \<and>
             database_run env (map match_id ms) = Inr (Some rows)"
  let ?has = "\<lambda>m. \<exists>r \<in> set rows. int_to_string (row_id r) = match_id m"
  let ?result = "combine_matches ms rows"
  have r: "retrieveDocs query k env = Inr ?result"
    using assms h by (simp add: retrieveDocs_def)
  have sc: "map score ?result = map match_score (filter ?has ms)"
    by (rule combine_matches_scores)
  have len: "length ?result \<le> length ms"
  proof -
    have "length ?result = length (map score ?result)" by simp
    also have "\<dots> = length (filter ?has ms)" by (simp only: sc length_map)
    also have "\<dots> \<le> length ms" by (rule length_filter_le)
    finally show ?thesis .
  qed
  have srt: "sorted_wrt (\<ge>) (map score ?result)" if "sorted_wrt (\<ge>) (map match_score ms)"
  proof -
    from that have "sorted_wrt (\<lambda>a b. match_score a \<ge> match_score b) ms"
      by (simp add: sorted_wrt_map)
    then have "sorted_wrt (\<lambda>a b. match_score a \<ge> match_score b) (filter ?has ms)"
      by (rule sorted_wrt_filter)
    then show ?thesis
      by (simp only: sc sorted_wrt_map)
  qed
  show "\<exists>result.
          retrieveDocs query k env = Inr result \<and>
          map score result = map match_score (filter ?has ms) \<and>
          (\<forall>x \<in> set result. \<exists>m \<in> set ms. \<exists>r \<in> set rows.
             int_to_string (row_id r) = match_id m \<and> x = make_match r (match_score m)) \<and>
          length result \<le> length ms \<and>
          (length ms \<le> nat k \<longrightarrow> length result \<le> nat k) \<and>
          (sorted_wrt (\<ge>) (map match_score ms) \<longrightarrow> sorted_wrt (\<ge>) (map score result))"
    using r sc len srt combine_matches_rows [of _ ms rows] by (intro exI [of _ ?result]) auto
qed

theorem retrieveDocs_ranked_witness:
  "retrieveDocs (js ''q'') 3 (example_env [] None (Inl UpstreamError)) = Inr [] \<and>
   (\<exists>result. retrieveDocs (js ''q'') 3 (example_env example_ranking None (Inl UpstreamError)) = Inr result \<and>
      map score result = [9 / 10, 7 / 10] \<and> length result \<le> 3 \<and>
      sorted_wrt (\<ge>) (map score result))"
proof -
  let ?none = "example_env [] None (Inl UpstreamError)"
  let ?some = "example_env example_ranking None (Inl UpstreamError)"
  have g0: "generateEmbeddings (js ''q'') ?none = Inr [1 / 2]"
    and g: "generateEmbeddings (js ''q'') ?some = Inr [1 / 2]"
    by (simp_all add: generateEmbeddings_def example_env_def)
  have i0: "VECTORIZE_query ?none [1 / 2] 3 = Inr (Some [])"
    by (simp add: example_env_def)
  have i: "VECTORIZE_query ?some [1 / 2] 3 = Inr (Some example_ranking) \<and> example_ranking \<noteq> [] \<and>
           database_run ?some (map match_id example_ranking) = Inr (Some example_rows)"
    by (simp add: example_env_def example_ranking_def)
  have f: "map match_score
             (filter (\<lambda>m. \<exists>r \<in> set example_rows. int_to_string (row_id r) = match_id m)
                example_ranking) = [9 / 10, 7 / 10]"
    by (simp add: example_ranking_def example_rows_def fmt_defs)
  have l: "length example_ranking \<le> nat 3" "sorted_wrt (\<ge>) (map match_score example_ranking)"
    by (simp_all add: example_ranking_def)
  from retrieveDocs_ranked [OF g0, where k = 3] i0
  have a: "retrieveDocs (js ''q'') 3 ?none = Inr []" by simp
  from retrieveDocs_ranked [OF g, where k = 3] i
  obtain result where "retrieveDocs (js ''q'') 3 ?some = Inr result"
    and "map score result =
           map match_score
             (filter (\<lambda>m. \<exists>r \<in> set example_rows. int_to_string (row_id r) = match_id m)
                example_ranking)"
    and "length example_ranking \<le> nat 3 \<longrightarrow> length result \<le> nat 3"
    and "sorted_wrt (\<ge>) (map match_score example_ranking) \<longrightarrow> sorted_wrt (\<ge>) (map score result)"
    by blast
  with a f l show ?thesis by auto
qed

lemma context_parts_length: "length (context_parts cap i ms) = length ms"
  by (induction ms arbitrary: i) simp_all

lemma context_parts_nth:
  "j < length ms \<Longrightarrow> context_parts cap i ms ! j = context_part cap (i + j) (ms ! j)"
proof (induction ms arbitrary: i j)
  case Nil
  then show ?case by simp
next
  case (Cons m ms)
  show ?case
  proof (cases j)
    case 0
    then show ?thesis by simp
  next
    case (Suc j')
    with Cons.prems have "j' < length ms" by simp
    from Cons.IH [OF this, of "i + 1"] Suc show ?thesis by simp
  qed
qed

subsection \<open>Context building\<close>

text \<open>
  C8, amended. \<open>buildContextSnippet\<close> emits one provenance entry \<open>{id, score, source}\<close>
  per match, in the order of the matches, and one block per match, joined by two
  newlines. Block \<open>i\<close> has the header with the ordinal \<open>i + 1\<close>, the chunk id (a non-zero
  key of the store; the word \<open>unknown\<close> in its place when the match carries no id) and
  the score under \<open>toFixed(4)\<close>, then the trimmed text, cut to the cap with the marker
  appended exactly when the trimmed text is longer than the cap.
\<close>

theorem buildContextSnippet_blocks:
  "snd (buildContextSnippet matches cap) =
     map (\<lambda>m. \<lparr>prov_id = meta_id (metadata (document m)), prov_score = score m,
               prov_source = source (metadata (document m))\<rparr>) matches \<and>
   (\<exists>parts.
      fst (buildContextSnippet matches cap) = join [10, 10] parts \<and>
      length parts = length matches \<and>
      (\<forall>i < length matches. \<exists>shown_id.
         parts ! i =
           js ''--- DOC '' @ digits (i + 1) @ js '' (id='' @ shown_id @
           js '', score='' @ toFixed4 (score (matches ! i)) @ js '') ---'' @ [10] @
           (if length (trim (page_content (document (matches ! i)))) > cap
            then take cap (trim (page_content (document (matches ! i)))) @ [32, 8230]
            else trim (page_content (document (matches ! i)))) @ [10] \<and>
         (meta_id (metadata (document (matches ! i))) = None \<longrightarrow> shown_id = js ''unknown'') \<and>
         (\<forall>k. meta_id (metadata (document (matches ! i))) = Some k \<and> k \<noteq> 0 \<longrightarrow>
              shown_id = int_to_string k)))"
proof -
  have "\<forall>i < length matches. \<exists>shown_id.
          context_parts cap 0 matches ! i =
            js ''--- DOC '' @ digits (i + 1) @ js '' (id='' @ shown_id @
            js '', score='' @ toFixed4 (score (matches ! i)) @ js '') ---'' @ [10] @
            (if length (trim (page_content (document (matches ! i)))) > cap
             then take cap (trim (page_content (document (matches ! i)))) @ [32, 8230]
             else trim (page_content (document (matches ! i)))) @ [10] \<and>
          (meta_id (metadata (document (matches ! i))) = None \<longrightarrow> shown_id = js ''unknown'') \<and>
          (\<forall>k. meta_id (metadata (document (matches ! i))) = Some k \<and> k \<noteq> 0 \<longrightarrow>
               shown_id = int_to_string k)"
  proof (intro allI impI)
    fix i assume i: "i < length matches"
    let ?id = "meta_id (metadata (document (matches ! i)))"
    let ?shown = "case ?id of None \<Rightarrow> js ''unknown''
                  | Some k \<Rightarrow> if k = 0 then js ''unknown'' else int_to_string k"
    have "context_parts cap 0 matches ! i =
            js ''--- DOC '' @ digits (i + 1) @ js '' (id='' @ ?shown @
            js '', score='' @ toFixed4 (score (matches ! i)) @ js '') ---'' @ [10] @
            (if length (trim (page_content (document (matches ! i)))) > cap
             then take cap (trim (page_content (document (matches ! i)))) @ [32, 8230]
             else trim (page_content (document (matches ! i)))) @ [10]"
      using i by (simp add: context_parts_nth context_part_def truncate_text_def substring0_def
          ellipsis_def Let_def)
    moreover have "?id = None \<longrightarrow> ?shown = js ''unknown''"
      by simp
    moreover have "\<forall>k. ?id = Some k \<and> k \<noteq> 0 \<longrightarrow> ?shown = int_to_string k"
      by simp
    ultimately show "\<exists>shown_id.
          context_parts cap 0 matches ! i =
            js ''--- DOC '' @ digits (i + 1) @ js '' (id='' @ shown_id @
            js '', score='' @ toFixed4 (score (matches ! i)) @ js '') ---'' @ [10] @
            (if length (trim (page_content (document (matches ! i)))) > cap
             then take cap (trim (page_content (document (matches ! i)))) @ [32, 8230]
             else trim (page_content (document (matches ! i)))) @ [10] \<and>
          (meta_id (metadata (document (matches ! i))) = None \<longrightarrow> shown_id = js ''unknown'') \<and>
          (\<forall>k. meta_id (metadata (document (matches ! i))) = Some k \<and> k \<noteq> 0 \<longrightarrow>
               shown_id = int_to_string k)"
      by (intro exI [of _ ?shown] conjI)
  qed
  then show ?thesis
    unfolding buildContextSnippet_def fst_conv snd_conv provenance_of_def
    by (intro conjI exI [of _ "context_parts cap 0 matches"] context_parts_length refl)
qed

lemma trim_replicate: "\<not> is_ws c \<Longrightarrow> trim (replicate n c) = replicate n c"
  by (simp add: trim_def)

theorem buildContextSnippet_blocks_witness:
  "snd (buildContextSnippet [long_match 2000, long_match 1000, mars_match (3 / 4), anonymous_match] 1500) =
     [\<lparr>prov_id = Some 12, prov_score = 1 / 2, prov_source = None\<rparr>,
      \<lparr>prov_id = Some 12, prov_score = 1 / 2, prov_source = None\<rparr>, mars_provenance (3 / 4),
      \<lparr>prov_id = None, prov_score = 9 / 10, prov_source = None\<rparr>] \<and>
   (\<exists>parts.
      fst (buildContextSnippet [long_match 2000, long_match 1000, mars_match (3 / 4), anonymous_match] 1500) =
        join [10, 10] parts \<and>
      length parts = 4 \<and>
      parts ! 0 = js ''--- DOC 1 (id=12, score=0.5000) ---'' @ [10] @ replicate 1500 97 @ [32, 8230] @ [10] \<and>
      parts ! 1 = js ''--- DOC 2 (id=12, score=0.5000) ---'' @ [10] @ replicate 1000 97 @ [10] \<and>
      parts ! 2 = js ''--- DOC 3 (id=7, score=0.7500) ---'' @ [10] @ js ''Mars is red.'' @ [10] \<and>
      parts ! 3 = js ''--- DOC 4 (id=unknown, score=0.9000) ---'' @ [10] @ js ''Deimos'' @ [10])"
proof -
  let ?ms = "[long_match 2000, long_match 1000, mars_match (3 / 4), anonymous_match]"
  have a: "\<not> is_ws 97" by (simp add: is_ws_def)
  from buildContextSnippet_blocks [of ?ms 1500]
  have s: "snd (buildContextSnippet ?ms 1500) =
     map (\<lambda>m. \<lparr>prov_id = meta_id (metadata (document m)), prov_score = score m,
               prov_source = source (metadata (document m))\<rparr>) ?ms"
    and ex: "\<exists>parts.
      fst (buildContextSnippet ?ms 1500) = join [10, 10] parts \<and>
      length parts = length ?ms \<and>
      (\<forall>i < length ?ms. \<exists>shown_id.
         parts ! i =
           js ''--- DOC '' @ digits (i + 1) @ js '' (id='' @ shown_id @
           js '', score='' @ toFixed4 (score (?ms ! i)) @ js '') ---'' @ [10] @
           (if length (trim (page_content (document (?ms ! i)))) > 1500
            then take 1500 (trim (page_content (document (?ms ! i)))) @ [32, 8230]
            else trim (page_content (document (?ms ! i)))) @ [10] \<and>
         (meta_id (metadata (document (?ms ! i))) = None \<longrightarrow> shown_id = js ''unknown'') \<and>
         (\<forall>k. meta_id (metadata (document (?ms ! i))) = Some k \<and> k \<noteq> 0 \<longrightarrow>
              shown_id = int_to_string k))"
    by (rule conjunct1, rule conjunct2)
  from ex obtain parts where p: "fst (buildContextSnippet ?ms 1500) = join [10, 10] parts"
      "length parts = length ?ms"
    and n: "\<And>i. i < length ?ms \<Longrightarrow> \<exists>shown_id.
         parts ! i =
           js ''--- DOC '' @ digits (i + 1) @ js '' (id='' @ shown_id @
           js '', score='' @ toFixed4 (score (?ms ! i)) @ js '') ---'' @ [10] @
           (if length (trim (page_content (document (?ms ! i)))) > 1500
            then take 1500 (trim (page_content (document (?ms ! i)))) @ [32, 8230]
            else trim (page_content (document (?ms ! i)))) @ [10] \<and>
         (meta_id (metadata (document (?ms ! i))) = None \<longrightarrow> shown_id = js ''unknown'') \<and>
         (\<forall>k. meta_id (metadata (document (?ms ! i))) = Some k \<and> k \<noteq> 0 \<longrightarrow>
              shown_id = int_to_string k)"
    by (elim exE conjE) simp
  have p0: "parts ! 0 = js ''--- DOC 1 (id=12, score=0.5000) ---'' @ [10] @ replicate 1500 97 @ [32, 8230] @ [10]"
  proof -
    from n [of 0] obtain shown where
      "parts ! 0 = js ''--- DOC '' @ digits (0 + 1) @ js '' (id='' @ shown @
           js '', score='' @ toFixed4 (score (?ms ! 0)) @ js '') ---'' @ [10] @
           (if length (trim (page_content (document (?ms ! 0)))) > 1500
            then take 1500 (trim (page_content (document (?ms ! 0)))) @ [32, 8230]
            else trim (page_content (document (?ms ! 0)))) @ [10]"
      and "\<forall>k. meta_id (metadata (document (?ms ! 0))) = Some k \<and> k \<noteq> 0 \<longrightarrow> shown = int_to_string k"
      by auto
    then show ?thesis
      by (simp add: long_match_def trim_replicate [OF a] fmt_defs)
  qed
  have p1: "parts ! 1 = js ''--- DOC 2 (id=12, score=0.5000) ---'' @ [10] @ replicate 1000 97 @ [10]"
  proof -
    from n [of 1] obtain shown where
      "parts ! 1 = js ''--- DOC '' @ digits (1 + 1) @ js '' (id='' @ shown @
           js '', score='' @ toFixed4 (score (?ms ! 1)) @ js '') ---'' @ [10] @
           (if length (trim (page_content (document (?ms ! 1)))) > 1500
            then take 1500 (trim (page_content (document (?ms ! 1)))) @ [32, 8230]
            else trim (page_content (document (?ms ! 1)))) @ [10]"
      and "\<forall>k. meta_id (metadata (document (?ms ! 1))) = Some k \<and> k \<noteq> 0 \<longrightarrow> shown = int_to_string k"
      by auto
    then show ?thesis
      by (simp add: long_match_def trim_replicate [OF a] fmt_defs)
  qed
  have p2: "parts ! 2 = js ''--- DOC 3 (id=7, score=0.7500) ---'' @ [10] @ js ''Mars is red.'' @ [10]"
  proof -
    from n [of 2] obtain shown where
      "parts ! 2 = js ''--- DOC '' @ digits (2 + 1) @ js '' (id='' @ shown @
           js '', score='' @ toFixed4 (score (?ms ! 2)) @ js '') ---'' @ [10] @
           (if length (trim (page_content (document (?ms ! 2)))) > 1500
            then take 1500 (trim (page_content (document (?ms ! 2)))) @ [32, 8230]
            else trim (page_content (document (?ms ! 2)))) @ [10]"
      and "\<forall>k. meta_id (metadata (document (?ms ! 2))) = Some k \<and> k \<noteq> 0 \<longrightarrow> shown = int_to_string k"
      by auto
    then show ?thesis
      by (simp add: mars_match_def trim_def is_ws_def fmt_defs)
  qed
  have p3: "parts ! 3 = js ''--- DOC 4 (id=unknown, score=0.9000) ---'' @ [10] @ js ''Deimos'' @ [10]"
  proof -
    from n [of 3] obtain shown where
      "parts ! 3 = js ''--- DOC '' @ digits (3 + 1) @ js '' (id='' @ shown @
           js '', score='' @ toFixed4 (score (?ms ! 3)) @ js '') ---'' @ [10] @
           (if length (trim (page_content (document (?ms ! 3)))) > 1500
            then take 1500 (trim (page_content (document (?ms ! 3)))) @ [32, 8230]
            else trim (page_content (document (?ms ! 3)))) @ [10]"
      and "meta_id (metadata (document (?ms ! 3))) = None \<longrightarrow> shown = js ''unknown''"
      by auto
    then show ?thesis
      by (simp add: anonymous_match_def trim_def is_ws_def fmt_defs)
  qed
  have sv: "snd (buildContextSnippet ?ms 1500) =
     [\<lparr>prov_id = Some 12, prov_score = 1 / 2, prov_source = None\<rparr>,
      \<lparr>prov_id = Some 12, prov_score = 1 / 2, prov_source = None\<rparr>, mars_provenance (3 / 4),
      \<lparr>prov_id = None, prov_score = 9 / 10, prov_source = None\<rparr>]"
    unfolding s by (simp add: long_match_def mars_match_def mars_provenance_def anonymous_match_def)
  have len: "length parts = 4"
    using p(2) by simp
  show ?thesis
    by (intro conjI exI [of _ parts] sv p(1) len p0 p1 p2 p3)
qed

text \<open>
  C8 as stated fails for a match that carries no id: its header has the word
  \<open>unknown\<close> where the claim has the chunk id. The same word stands for the id 0,
  which the store, whose keys start at 1, never issues; the statement above therefore
  speaks of the ids other than 0.
\<close>

theorem header_without_id:
  "meta_id (metadata (document anonymous_match)) = None \<and>
   fst (buildContextSnippet [anonymous_match] 1500) =
     js ''--- DOC 1 (id=unknown, score=0.9000) ---'' @ [10] @ js ''Deimos'' @ [10] \<and>
   meta_id (metadata (document zero_id_match)) = Some 0 \<and>
   fst (buildContextSnippet [zero_id_match] 1500) =
     js ''--- DOC 1 (id=unknown, score=0.9000) ---'' @ [10] @ js ''Phobos'' @ [10]"
  by (simp add: context_defs anonymous_match_def zero_id_match_def fmt_defs)

lemma db_only_provenance:
  assumes "retrieveDocs query topK env = Inr matches"
    and "answerQuery query (js ''db-only'') topK scoreThreshold env = Inr result"
  shows "provenance result = Some (map provenance_of matches)"
  using assms
  by (cases matches)
    (auto simp: answerQuery_def buildContextSnippet_def split: sum.splits prod.splits if_splits)

subsection \<open>Provenance in hybrid mode\<close>

text \<open>
  C9 at a hybrid query whose retrieval finds a match of score 0.9: the hybrid branch
  of \<open>answerQuery\<close> returns the answer alone, so the endpoint replies with an empty
  \<open>sources\<close> list and no \<open>sourceDetails\<close>, where the claim has one provenance entry for
  the match.
\<close>

theorem hybrid_answer_without_sources:
  "retrieveDocs (js ''q'') 5 (example_env [example_match (9 / 10)] None (Inl UpstreamError)) =
     Inr [mars_match (9 / 10)] \<and>
   query_handler (Some (js ''q'')) (Some (js ''hybrid'')) (Some 8) (Some (72 / 100))
       (example_env [example_match (9 / 10)] None (Inl UpstreamError)) =
     Ok200 \<lparr>resp_query = js ''q'',
            resp_answer = build_prompt SYSTEM_PROMPT_HYBRID (js ''q'')
                            (js ''Database Results:'' @ [10] @
                             js ''Doc ID: 7, Source: mars.pdf, Score: 0.9'' @ [10] @
                             js '' Mars is red. ...'' @ [10, 10]),
            sources = [], resp_mode = js ''hybrid'', sourceDetails = None\<rparr>"
proof -
  let ?env = "example_env [example_match (9 / 10)] None (Inl UpstreamError)"
  have t: "truthy (Some (js ''q''))" "truthy (Some (js ''hybrid''))"
    by (simp_all add: truthy_def js_def)
  have c: "hybrid_context (js ''q'') ?env (dbQueryTool (js ''q'') 5 ?env) =
             js ''Database Results:'' @ [10] @
             js ''Doc ID: 7, Source: mars.pdf, Score: 0.9'' @ [10] @
             js '' Mars is red. ...'' @ [10, 10]"
    unfolding hybrid_context_def example_db_block
    by (simp only: example_needs_web if_False append_Nil2)
  show ?thesis
    unfolding query_handler_def Let_def
    by (simp add: t example_hybrid_answer c example_retrieve)
qed

lemma hybrid_parameters_unused:
  "answerQuery query (js ''hybrid'') topK scoreThreshold env =
   answerQuery query (js ''hybrid'') topK' scoreThreshold' env"
  by (simp add: hybrid_answer)

subsection \<open>The hybrid branch and the caller's parameters\<close>

text \<open>
  C2 at a hybrid query with \<open>topK = 8\<close> and \<open>scoreThreshold = 0.5\<close> whose top match
  scores 0.6: the score is not below the caller's threshold, and yet the context
  holds a web block, because \<open>runAgent\<close> compares the score, rounded to three decimals,
  with the default 0.72 and never sees the caller's parameters.
\<close>

theorem hybrid_web_search_above_caller_threshold:
  "answerQuery (js ''q'') (js ''hybrid'') 8 (50 / 100)
       (example_env [example_match (60 / 100)] (Some (js ''key''))
          (Inr \<lparr>ok = True, body = Some (Some [example_item])\<rparr>)) =
     Inr \<lparr>answer = build_prompt SYSTEM_PROMPT_HYBRID (js ''q'')
                     (js ''Database Results:'' @ [10] @
                      js ''Doc ID: 7, Source: mars.pdf, Score: 0.6'' @ [10] @
                      js '' Mars is red. ...'' @ [10, 10] @
                      js ''Web Search Results:'' @ [10] @ js ''Mars'' @ [10] @
                      js ''The red planet'' @ [10] @ js ''https://example.org/mars''),
          provenance = None, raw = None\<rparr>"
proof -
  let ?env = "example_env [example_match (6 / 10)] (Some (js ''key''))
                (Inr \<lparr>ok = True, body = Some (Some [example_item])\<rparr>)"
  have s: "(60 / 100 :: rat) = 6 / 10"
    by simp
  have w: "web_block [example_item] =
             js ''Web Search Results:'' @ [10] @ js ''Mars'' @ [10] @
             js ''The red planet'' @ [10] @ js ''https://example.org/mars''"
    by (simp add: web_block_def render_web_result_def example_item_def)
  have c: "hybrid_context (js ''q'') ?env (dbQueryTool (js ''q'') 5 ?env) =
             js ''Database Results:'' @ [10] @
             js ''Doc ID: 7, Source: mars.pdf, Score: 0.6'' @ [10] @
             js '' Mars is red. ...'' @ [10, 10] @
             js ''Web Search Results:'' @ [10] @ js ''Mars'' @ [10] @
             js ''The red planet'' @ [10] @ js ''https://example.org/mars''"
    unfolding hybrid_context_def example_db_block example_search w
    by (simp only: example_needs_web if_True append_assoc)
  show ?thesis
    unfolding s by (simp only: example_hybrid_answer c)
qed

section \<open>Properties of the chunker\<close>

subsection \<open>Where a window is cut\<close>

lemma last_index_from_bounds:
  "last_index_from s c k = - 1 \<or>
   (0 \<le> last_index_from s c k \<and> nat (last_index_from s c k) \<le> k \<and>
    nat (last_index_from s c k) < length s \<and> s ! nat (last_index_from s c k) = c)"
  by (induction k) (auto simp del: of_nat_Suc)

lemma last_index_from_upper:
  "i \<le> k \<Longrightarrow> i < length s \<Longrightarrow> s ! i = c \<Longrightarrow> int i \<le> last_index_from s c k"
proof (induction k)
  case 0
  then show ?case by simp
next
  case (Suc k)
  show ?case
  proof (cases "i = Suc k")
    case True
    with Suc.prems show ?thesis by simp
  next
    case False
    with Suc.prems have ik: "i \<le> k" by simp
    from Suc.IH [OF this Suc.prems(2,3)] ik show ?thesis by simp
  qed
qed

lemma lastIndexOf_bounds:
  assumes "0 \<le> pos" and "pos < int (length s)"
  shows "lastIndexOf s c pos = - 1 \<or>
         (0 \<le> lastIndexOf s c pos \<and> lastIndexOf s c pos \<le> pos \<and>
          s ! nat (lastIndexOf s c pos) = c)"
proof -
  from assms have s: "s \<noteq> []" by auto
  from assms have k: "nat (min (max pos 0) (int (length s) - 1)) = nat pos" by simp
  from last_index_from_bounds [of s c "nat pos"] assms show ?thesis
    unfolding lastIndexOf_def k using s by auto
qed

lemma lastIndexOf_upper:
  assumes "0 \<le> pos" and "pos < int (length s)" and "int i \<le> pos" and "s ! i = c"
  shows "int i \<le> lastIndexOf s c pos"
proof -
  from assms have s: "s \<noteq> []" by auto
  from assms have k: "nat (min (max pos 0) (int (length s) - 1)) = nat pos" by simp
  from assms have "i \<le> nat pos" "i < length s" by auto
  from last_index_from_upper [OF this assms(4)] show ?thesis
    unfolding lastIndexOf_def k using s by simp
qed

text \<open>The last position, up to a bound, of a code unit of a given set.\<close>

lemma lastIndexOf_Max:
  assumes "0 \<le> pos" and "pos < int (length s)"
  shows "lastIndexOf s c pos =
           (if \<exists>i. int i \<le> pos \<and> s ! i = c then int (Max {i. int i \<le> pos \<and> s ! i = c}) else - 1)"
proof (cases "\<exists>i. int i \<le> pos \<and> s ! i = c")
  case False
  with lastIndexOf_bounds [OF assms, of c] show ?thesis
    by (metis int_nat_eq)
next
  case True
  then obtain i where i: "int i \<le> pos" "s ! i = c" by blast
  let ?S = "{i. int i \<le> pos \<and> s ! i = c}"
  let ?l = "lastIndexOf s c pos"
  have fin: "finite ?S"
    by (rule finite_subset [of _ "{..nat pos}"]) auto
  from lastIndexOf_upper [OF assms i] have nonneg: "0 \<le> ?l" by simp
  with lastIndexOf_bounds [OF assms, of c] have mem: "nat ?l \<in> ?S" by auto
  have "Max ?S = nat ?l"
  proof (rule Max_eqI [OF fin _ mem])
    fix j assume "j \<in> ?S"
    then have "int j \<le> ?l" using lastIndexOf_upper [OF assms] by simp
    then show "j \<le> nat ?l" by simp
  qed
  with True nonneg show ?thesis by simp
qed


lemma last_terminal_Max:
  assumes "0 \<le> pos" and "pos < int (length s)"
  shows "max (max (lastIndexOf s 46 pos) (lastIndexOf s 63 pos)) (lastIndexOf s 33 pos) =
           (if \<exists>i. int i \<le> pos \<and> s ! i \<in> {46, 63, 33}
            then int (Max {i. int i \<le> pos \<and> s ! i \<in> {46, 63, 33}}) else - 1)"
proof -
  let ?a = "lastIndexOf s 46 pos" and ?b = "lastIndexOf s 63 pos" and ?c = "lastIndexOf s 33 pos"
  let ?m = "max (max ?a ?b) ?c"
  let ?T = "{i. int i \<le> pos \<and> s ! i \<in> {46, 63, 33}}"
  note ba = lastIndexOf_bounds [OF assms, of 46]
    and bb = lastIndexOf_bounds [OF assms, of 63]
    and bc = lastIndexOf_bounds [OF assms, of 33]
  have upper: "int j \<le> ?m" if "j \<in> ?T" for j
  proof -
    from that have j: "int j \<le> pos" and "s ! j = 46 \<or> s ! j = 63 \<or> s ! j = 33" by auto
    then consider "s ! j = 46" | "s ! j = 63" | "s ! j = 33" by blast
    then show ?thesis
    proof cases
      case 1
      from lastIndexOf_upper [OF assms j 1] show ?thesis by simp
    next
      case 2
      from lastIndexOf_upper [OF assms j 2] show ?thesis by simp
    next
      case 3
      from lastIndexOf_upper [OF assms j 3] show ?thesis by simp
    qed
  qed
  have member: "nat ?m \<in> ?T" if "0 \<le> ?m"
  proof -
    have "?m = ?a \<or> ?m = ?b \<or> ?m = ?c" by (simp add: max_def)
    then consider "?m = ?a" | "?m = ?b" | "?m = ?c" by blast
    then show ?thesis
    proof cases
      case 1
      with that ba show ?thesis by auto
    next
      case 2
      with that bb show ?thesis by auto
    next
      case 3
      with that bc show ?thesis by auto
    qed
  qed
  show ?thesis
  proof (cases "\<exists>i. int i \<le> pos \<and> s ! i \<in> {46, 63, 33}")
    case False
    then have "?T = {}" by blast
    with member have "\<not> 0 \<le> ?m" by blast
    moreover from ba bb bc have "?m = - 1 \<or> 0 \<le> ?m" by (auto simp: max_def)
    ultimately show ?thesis using False by auto
  next
    case True
    then obtain i where "i \<in> ?T" by blast
    from upper [OF this] have nonneg: "0 \<le> ?m" by simp
    have fin: "finite ?T"
      by (rule finite_subset [of _ "{..nat pos}"]) auto
    have "Max ?T = nat ?m"
    proof (rule Max_eqI [OF fin _ member [OF nonneg]])
      fix j assume "j \<in> ?T"
      from upper [OF this] show "j \<le> nat ?m" by simp
    qed
    with True nonneg show ?thesis by simp
  qed
qed

text \<open>
  The two bounds are not negative for a window of the text.
\<close>

lemma bounds_nonneg:
  assumes "0 \<le> start" and "0 \<le> chunkSize"
  shows "0 \<le> sentence_bound start chunkSize" and "0 \<le> space_bound start chunkSize"
proof -
  have "0 \<le> to_double (7 / 10)" "0 \<le> to_double (8 / 10)"
    by (simp_all add: to_double_nonneg)
  with assms have "0 \<le> of_int chunkSize * to_double (7 / 10)"
    "0 \<le> of_int chunkSize * to_double (8 / 10)"
    by simp_all
  then have "0 \<le> to_double (of_int chunkSize * to_double (7 / 10))"
    "0 \<le> to_double (of_int chunkSize * to_double (8 / 10))"
    by (simp_all only: to_double_nonneg)
  with assms have "0 \<le> of_int start + to_double (of_int chunkSize * to_double (7 / 10))"
    "0 \<le> of_int start + to_double (of_int chunkSize * to_double (8 / 10))"
    by simp_all
  then show "0 \<le> sentence_bound start chunkSize" and "0 \<le> space_bound start chunkSize"
    unfolding sentence_bound_def space_bound_def by (simp_all only: to_double_nonneg)
qed

text \<open>
  C4, amended. For a window that starts at \<open>start \<ge> 0\<close> with \<open>chunkSize \<ge> 0\<close> and whose
  candidate boundary \<open>start + chunkSize\<close> lies before the end of the text: when some
  \<open>.\<close>, \<open>?\<close> or \<open>!\<close> at or before the boundary has a position strictly greater than
  the double \<open>start + chunkSize * 0.7\<close>, the cut is at the last such character at or
  before the boundary, which ends the chunk; failing that, when some space at or
  before the boundary has a position strictly greater than the double
  \<open>start + chunkSize * 0.8\<close>, the cut is at the last space at or before the boundary;
  otherwise the cut is at \<open>start + chunkSize\<close>.
\<close>

theorem chunk_end_rule:
  assumes "0 \<le> start" and "0 \<le> chunkSize" and "start + chunkSize < int (length txt)"
  shows "chunk_end txt chunkSize start =
     (if \<exists>i. int i \<le> start + chunkSize \<and> txt ! i \<in> {46, 63, 33} \<and>
             of_nat i > sentence_bound start chunkSize
      then int (Max {i. int i \<le> start + chunkSize \<and> txt ! i \<in> {46, 63, 33}}) + 1
      else if \<exists>i. int i \<le> start + chunkSize \<and> txt ! i = 32 \<and>
                  of_nat i > space_bound start chunkSize
      then int (Max {i. int i \<le> start + chunkSize \<and> txt ! i = 32})
      else start + chunkSize)"
proof -
  let ?E = "start + chunkSize"
  let ?T = "{i. int i \<le> ?E \<and> txt ! i \<in> {46, 63, 33}}"
  let ?W = "{i. int i \<le> ?E \<and> txt ! i = 32}"
  let ?m = "max (max (lastIndexOf txt 46 ?E) (lastIndexOf txt 63 ?E)) (lastIndexOf txt 33 ?E)"
  let ?sp = "lastIndexOf txt 32 ?E"
  let ?t7 = "sentence_bound start chunkSize"
  let ?t8 = "space_bound start chunkSize"
  from assms have E: "0 \<le> ?E" "?E < int (length txt)" by simp_all
  from bounds_nonneg [OF assms(1,2)] have t7: "0 \<le> ?t7" and t8: "0 \<le> ?t8" .
  have finT: "finite ?T" and finW: "finite ?W"
    by (rule finite_subset [of _ "{..nat ?E}"]; auto)+
  have m: "?m = (if ?T \<noteq> {} then int (Max ?T) else - 1)"
    using last_terminal_Max [OF E] by auto
  have sp: "?sp = (if ?W \<noteq> {} then int (Max ?W) else - 1)"
    using lastIndexOf_Max [OF E, of 32] by auto
  have c7: "(of_int ?m > ?t7) \<longleftrightarrow> (\<exists>i. int i \<le> ?E \<and> txt ! i \<in> {46, 63, 33} \<and> (of_nat i :: rat) > ?t7)"
  proof
    assume h: "of_int ?m > ?t7"
    with t7 have "(0::rat) < of_int ?m" by linarith
    then have "0 < ?m" by simp
    with m have ne: "?T \<noteq> {}" and eq: "?m = int (Max ?T)" by (auto split: if_splits)
    from Max_in [OF finT ne] have "Max ?T \<in> ?T" .
    moreover from h eq have "(of_nat (Max ?T) :: rat) > ?t7" by simp
    ultimately show "\<exists>i. int i \<le> ?E \<and> txt ! i \<in> {46, 63, 33} \<and> (of_nat i :: rat) > ?t7"
      by blast
  next
    assume "\<exists>i. int i \<le> ?E \<and> txt ! i \<in> {46, 63, 33} \<and> (of_nat i :: rat) > ?t7"
    then obtain i where i: "i \<in> ?T" "(of_nat i :: rat) > ?t7" by blast
    then have "?T \<noteq> {}" by blast
    with m have eq: "?m = int (Max ?T)" by simp
    from Max_ge [OF finT i(1)] have "(of_nat i :: rat) \<le> of_nat (Max ?T)" by simp
    with i(2) eq show "of_int ?m > ?t7" by simp
  qed
  have c8: "(of_int ?sp > ?t8) \<longleftrightarrow> (\<exists>i. int i \<le> ?E \<and> txt ! i = 32 \<and> (of_nat i :: rat) > ?t8)"
  proof
    assume h: "of_int ?sp > ?t8"
    with t8 have "(0::rat) < of_int ?sp" by linarith
    then have "0 < ?sp" by simp
    with sp have ne: "?W \<noteq> {}" and eq: "?sp = int (Max ?W)" by (auto split: if_splits)
    from Max_in [OF finW ne] have "Max ?W \<in> ?W" .
    moreover from h eq have "(of_nat (Max ?W) :: rat) > ?t8" by simp
    ultimately show "\<exists>i. int i \<le> ?E \<and> txt ! i = 32 \<and> (of_nat i :: rat) > ?t8"
      by blast
  next
    assume "\<exists>i. int i \<le> ?E \<and> txt ! i = 32 \<and> (of_nat i :: rat) > ?t8"
    then obtain i where i: "i \<in> ?W" "(of_nat i :: rat) > ?t8" by blast
    then have "?W \<noteq> {}" by blast
    with sp have eq: "?sp = int (Max ?W)" by simp
    from Max_ge [OF finW i(1)] have "(of_nat i :: rat) \<le> of_nat (Max ?W)" by simp
    with i(2) eq show "of_int ?sp > ?t8" by simp
  qed
  have mT: "?m = int (Max ?T)" if "of_int ?m > ?t7"
  proof -
    from that t7 have "(0::rat) < of_int ?m" by linarith
    then have "0 < ?m" by simp
    with m show ?thesis by (auto split: if_splits)
  qed
  have spW: "?sp = int (Max ?W)" if "of_int ?sp > ?t8"
  proof -
    from that t8 have "(0::rat) < of_int ?sp" by linarith
    then have "0 < ?sp" by simp
    with sp show ?thesis by (auto split: if_splits)
  qed
  have "chunk_end txt chunkSize start =
          (if of_int ?m > ?t7 then ?m + 1 else if of_int ?sp > ?t8 then ?sp else ?E)"
    using E by (simp add: chunk_end_def Let_def)
  also have "\<dots> = (if of_int ?m > ?t7 then int (Max ?T) + 1
                    else if of_int ?sp > ?t8 then int (Max ?W) else ?E)"
    using mT spW by simp
  finally show ?thesis
    unfolding c7 c8 .
qed

subsection \<open>The rule on examples\<close>

lemma last_index_from_numeral:
  "last_index_from s c (numeral n) =
     (if numeral n < length s \<and> s ! numeral n = c then int (numeral n)
      else last_index_from s c (pred_numeral n))"
  by (simp add: numeral_eq_Suc)

text \<open>The two bounds of the windows used below, as the doubles the code computes.\<close>

lemma example_bounds:
  "sentence_bound 0 10 = 7"
  "space_bound 0 10 = 8"
  "sentence_bound 8 10 = 15"
  "space_bound 8 10 = 16"
  "sentence_bound 0 90 = 8866461766385663 / 140737488355328"
  "space_bound 0 90 = 72"
  "sentence_bound 0 4 = 3152519739159347 / 1125899906842624"
  "space_bound 0 4 = 3602879701896397 / 1125899906842624"
  "sentence_bound 4 4 = 7656119366529843 / 1125899906842624"
  "space_bound 4 4 = 8106479329266893 / 1125899906842624"
  "sentence_bound 8 4 = 3039929748475085 / 281474976710656"
  "space_bound 8 4 = 3152519739159347 / 281474976710656"
  "sentence_bound 0 20 = 14"
  "space_bound 0 20 = 16"
  "sentence_bound (- 20) 10 = - 13"
  "space_bound (- 20) 10 = - 12"
  "sentence_bound 0 (- 10) = - 7"
  "space_bound 0 (- 10) = - 8"
  by (simp_all add: sentence_bound_def space_bound_def double_defs)

lemmas chunk_defs = chunk_end_def lastIndexOf_def last_index_from_numeral js_def example_bounds

lemmas chunk_loop_defs = chunkText_def chunk_loop.simps chunk_defs slice_string_def slice_index_def
  trim_def is_ws_def

theorem chunk_end_rule_witness:
  "chunk_end (js ''aaaaaaaa.bbbbbbbbbbbb'') 10 0 = 9 \<and>
   int (Max {i. int i \<le> 0 + 10 \<and> js ''aaaaaaaa.bbbbbbbbbbbb'' ! i \<in> {46, 63, 33}}) + 1 = 9 \<and>
   chunk_end (js ''abcd        efgh'') 4 4 = 8 \<and>
   int (Max {i. int i \<le> 4 + 4 \<and> js ''abcd        efgh'' ! i = 32}) = 8 \<and>
   sentence_bound 0 90 < 63 \<and>
   chunk_end (replicate 63 97 @ [46] @ replicate 40 98) 90 0 = 64 \<and>
   int (Max {i. int i \<le> 0 + 90 \<and>
               (replicate 63 97 @ [46] @ replicate 40 98 :: jsstring) ! i \<in> {46, 63, 33}}) + 1 = 64"
proof -
  let ?s = "js ''aaaaaaaa.bbbbbbbbbbbb''" and ?w = "js ''abcd        efgh''"
  let ?l = "replicate 63 97 @ [46] @ replicate 40 98 :: jsstring"
  have s: "(0::int) \<le> 0" "(0::int) \<le> 10" "(0::int) + 10 < int (length ?s)"
    by (simp_all add: js_def)
  have w: "(0::int) \<le> 4" "(4::int) + 4 < int (length ?w)"
    by (simp_all add: js_def)
  have l: "(0::int) \<le> 0" "(0::int) \<le> 90" "(0::int) + 90 < int (length ?l)"
    by simp_all
  have s1: "\<exists>i. int i \<le> 0 + 10 \<and> ?s ! i \<in> {46, 63, 33} \<and>
              (of_nat i :: rat) > sentence_bound 0 10"
    by (rule exI [of _ 8]) (simp add: js_def example_bounds)
  have w0: "\<not> (\<exists>i. int i \<le> 4 + 4 \<and> ?w ! i \<in> {46, 63, 33} \<and>
              (of_nat i :: rat) > sentence_bound 4 4)"
  proof
    assume "\<exists>i. int i \<le> 4 + 4 \<and> ?w ! i \<in> {46, 63, 33} \<and>
              (of_nat i :: rat) > sentence_bound 4 4"
    then obtain i where i: "int i \<le> 4 + 4" "?w ! i \<in> {46, 63, 33}" by blast
    from i(1) have "i \<in> {0, 1, 2, 3, 4, 5, 6, 7, 8}" by auto
    with i(2) show False
      by (auto simp: js_def)
  qed
  have w1: "\<exists>i. int i \<le> 4 + 4 \<and> ?w ! i = 32 \<and>
              (of_nat i :: rat) > space_bound 4 4"
    by (rule exI [of _ 8]) (simp add: js_def example_bounds)
  have l1: "\<exists>i. int i \<le> 0 + 90 \<and> ?l ! i \<in> {46, 63, 33} \<and>
              (of_nat i :: rat) > sentence_bound 0 90"
    by (rule exI [of _ 63]) (simp add: nth_append example_bounds)
  have es: "chunk_end ?s 10 0 = 9" and ew: "chunk_end ?w 4 4 = 8"
    by (simp_all add: chunk_defs)
  have el: "chunk_end ?l 90 0 = 64"
    by (simp add: chunk_defs nth_append)
  have bl: "sentence_bound 0 90 < 63"
    by (simp add: example_bounds)
  from chunk_end_rule [OF s] s1
  have "chunk_end ?s 10 0 = int (Max {i. int i \<le> 0 + 10 \<and> ?s ! i \<in> {46, 63, 33}}) + 1"
    by (simp only: if_True)
  moreover from chunk_end_rule [OF w(1) w(1) w(2)] w0 w1
  have "chunk_end ?w 4 4 = int (Max {i. int i \<le> 4 + 4 \<and> ?w ! i = 32})"
    by (simp only: if_True if_False)
  moreover from chunk_end_rule [OF l] l1
  have "chunk_end ?l 90 0 = int (Max {i. int i \<le> 0 + 90 \<and> ?l ! i \<in> {46, 63, 33}}) + 1"
    by (simp only: if_True)
  ultimately show ?thesis
    using es ew el bl by simp
qed

text \<open>
  C4 as stated fails in five ways, one per line of the statement below.

  \<^item> At the threshold itself: with \<open>chunkSize = 10\<close> and the only full stop at index 7,
    which is no earlier than \<open>0 + 0.7 * 10 = 7\<close> (the double product is exactly 7), the
    first window is cut at 10 and not at the full stop; \<open>chunkText\<close> with overlap 2
    returns the three chunks shown.
  \<^item> At whitespace other than a space: a tab at index 9, no earlier than
    \<open>0 + 0.8 * 10 = 8\<close>, is not a cut; the window is cut at 10.
  \<^item> At a boundary beyond the end of the text: in the second window of a text of
    28 characters with \<open>chunkSize = 20\<close> and overlap 10, the boundary is \<open>10 + 20 = 30\<close>,
    which is not the end of the text, and the full stop at index 25 is no earlier than
    \<open>10 + 0.7 * 20 = 24\<close>; the cut stays at 30 and the chunk runs past the full stop.
  \<^item> At a negative start: with \<open>chunkSize = 10\<close> and overlap 30 the second window
    starts at \<open>10 - 30 = - 20\<close>; no terminal and no space is at or before its boundary
    \<open>- 10\<close>, yet the cut is at 0, because the result \<open>- 1\<close> of the failed search is
    greater than \<open>- 20 + 0.7 * 10\<close>.
  \<^item> At a negative \<open>chunkSize\<close>: the first window of a call with \<open>chunkSize = - 10\<close> is
    cut at 0 and not at \<open>0 + - 10\<close>, for the same reason.
\<close>

theorem chunk_end_outside_rule:
  "(js ''aaaaaaa.bbbbbbbbbbbb'' ! 7 = 46 \<and>
    (of_nat 7 :: rat) \<ge> of_int 0 + of_int 10 * (7 / 10) \<and>
    int (length (js ''aaaaaaa.bbbbbbbbbbbb'')) > 0 + 10 \<and>
    chunk_end (js ''aaaaaaa.bbbbbbbbbbbb'') 10 0 = 10 \<and>
    chunkText (js ''aaaaaaa.bbbbbbbbbbbb'') 10 2 =
      Some [js ''aaaaaaa.bb'', js ''bbbbbbbbbb'', js ''bbbb'']) \<and>
   ((js ''aaaaaaaaa'' @ [9] @ js ''bbbbbbbbbbb'') ! 9 = 9 \<and> is_ws 9 \<and>
    (of_nat 9 :: rat) \<ge> of_int 0 + of_int 10 * (8 / 10) \<and>
    int (length (js ''aaaaaaaaa'' @ [9] @ js ''bbbbbbbbbbb'')) > 0 + 10 \<and>
    set (js ''aaaaaaaaa'' @ [9] @ js ''bbbbbbbbbbb'') \<inter> {46, 63, 33} = {} \<and>
    chunk_end (js ''aaaaaaaaa'' @ [9] @ js ''bbbbbbbbbbb'') 10 0 = 10) \<and>
   (int (length (js ''aaaaaaaaaaaaaaaaaaaaaaaaa.bb'')) = 28 \<and>
    chunk_end (js ''aaaaaaaaaaaaaaaaaaaaaaaaa.bb'') 20 0 - 10 = 10 \<and>
    js ''aaaaaaaaaaaaaaaaaaaaaaaaa.bb'' ! 25 = 46 \<and>
    (of_nat 25 :: rat) \<ge> of_int 10 + of_int 20 * (7 / 10) \<and>
    chunk_end (js ''aaaaaaaaaaaaaaaaaaaaaaaaa.bb'') 20 10 = 30 \<and>
    chunkText (js ''aaaaaaaaaaaaaaaaaaaaaaaaa.bb'') 20 10 =
      Some [js ''aaaaaaaaaaaaaaaaaaaa'', js ''aaaaaaaaaaaaaaa.bb'', js ''aaaaa.bb'']) \<and>
   (set (js ''abcdefghijklmnopqrstuvwxyz'') \<inter> {46, 63, 33, 32} = {} \<and>
    chunk_end (js ''abcdefghijklmnopqrstuvwxyz'') 10 0 - 30 = - 20 \<and>
    - 20 + 10 < int (length (js ''abcdefghijklmnopqrstuvwxyz'')) \<and>
    chunk_end (js ''abcdefghijklmnopqrstuvwxyz'') 10 (- 20) = 0) \<and>
   (int (length (js ''abcdefghijklmnopqrstuvwxyz'')) > - 10 \<and>
    chunk_end (js ''abcdefghijklmnopqrstuvwxyz'') (- 10) 0 = 0)"
proof -
  let ?a = "js ''aaaaaaa.bbbbbbbbbbbb''"
  let ?b = "js ''aaaaaaaaa'' @ [9] @ js ''bbbbbbbbbbb''"
  let ?c = "js ''aaaaaaaaaaaaaaaaaaaaaaaaa.bb''"
  let ?d = "js ''abcdefghijklmnopqrstuvwxyz''"
  have a: "?a ! 7 = 46" "(of_nat 7 :: rat) \<ge> of_int 0 + of_int 10 * (7 / 10)"
    "int (length ?a) > 0 + 10"
    by (simp_all add: js_def)
  have a1: "chunk_end ?a 10 0 = 10"
    by (simp add: chunk_defs)
  have a2: "chunkText ?a 10 2 = Some [js ''aaaaaaa.bb'', js ''bbbbbbbbbb'', js ''bbbb'']"
    by (simp add: chunk_loop_defs)
  have b: "?b ! 9 = 9" "is_ws 9" "(of_nat 9 :: rat) \<ge> of_int 0 + of_int 10 * (8 / 10)"
    "int (length ?b) > 0 + 10" "set ?b \<inter> {46, 63, 33} = {}"
    by (simp_all add: js_def is_ws_def)
  have b1: "chunk_end ?b 10 0 = 10"
    by (simp add: chunk_defs)
  have c: "int (length ?c) = 28" "?c ! 25 = 46"
    "(of_nat 25 :: rat) \<ge> of_int 10 + of_int 20 * (7 / 10)"
    by (simp_all add: js_def)
  have c1: "chunk_end ?c 20 0 - 10 = 10" "chunk_end ?c 20 10 = 30"
    by (simp_all add: chunk_defs)
  have c2: "chunkText ?c 20 10 =
      Some [js ''aaaaaaaaaaaaaaaaaaaa'', js ''aaaaaaaaaaaaaaa.bb'', js ''aaaaa.bb'']"
    by (simp add: chunk_loop_defs)
  have d: "set ?d \<inter> {46, 63, 33, 32} = {}" "- 20 + 10 < int (length ?d)"
    "int (length ?d) > - 10"
    by (simp_all add: js_def)
  have d1: "chunk_end ?d 10 0 - 30 = - 20" "chunk_end ?d 10 (- 20) = 0"
    "chunk_end ?d (- 10) 0 = 0"
    by (simp_all add: chunk_defs)
  show ?thesis
    by (intro conjI a a1 a2 b b1 c c1 c2 d d1)
qed


subsection \<open>Progress and termination\<close>

text \<open>
  The two doubles are below the exact \<open>start + 0.7 * chunkSize\<close> and
  \<open>start + 0.8 * chunkSize\<close> by less than \<open>1 / 16\<close> for a window below \<open>2 ^ 40\<close>.
\<close>

lemma double_bound_lower:
  fixes q :: rat
  assumes "0 \<le> start" and "0 \<le> chunkSize" and "start + chunkSize \<le> 2 ^ 40"
    and d: "to_double q = d" and d0: "0 \<le> q" and dq: "q - 1 / 2 ^ 50 \<le> d" "d \<le> 1"
  shows "of_int start + of_int chunkSize * q - 1 / 16
           \<le> to_double (of_int start + to_double (of_int chunkSize * to_double q))"
proof -
  let ?s = "of_int start :: rat" and ?c = "of_int chunkSize :: rat"
  let ?p = "to_double (?c * d)"
  let ?b = "to_double (?s + ?p)"
  from assms(1,2) have s: "0 \<le> ?s" and c: "0 \<le> ?c" by simp_all
  from assms(3) have "of_int (start + chunkSize) \<le> (of_int (2 ^ 40) :: rat)"
    by (simp only: of_int_le_iff)
  then have sc: "?s + ?c \<le> 2 ^ 40" by simp
  from d0 d have d_nonneg: "0 \<le> d" using to_double_nonneg [of q] by simp
  with c have cd: "0 \<le> ?c * d" by simp
  from c dq(2) have cd1: "?c * d \<le> ?c" by (simp add: mult_left_le)
  from c dq(1) have "?c * (q - 1 / 2 ^ 50) \<le> ?c * d" by (rule mult_left_mono [rotated])
  then have cq: "?c * q - ?c / 2 ^ 50 \<le> ?c * d" by (simp add: algebra_simps)
  from to_double_error [OF cd] have p: "\<bar>?p - ?c * d\<bar> \<le> ?c * d / 2 ^ 53" .
  from cd1 have "?c * d / 2 ^ 53 \<le> ?c / 2 ^ 53" by (simp add: divide_right_mono)
  with p have p1: "?c * d - ?c / 2 ^ 53 \<le> ?p" and p2: "?p \<le> ?c * d + ?c / 2 ^ 53"
    by linarith+
  from cd have p0: "0 \<le> ?p" by (rule to_double_nonneg)
  with s have sp: "0 \<le> ?s + ?p" by simp
  from to_double_error [OF sp] have b: "\<bar>?b - (?s + ?p)\<bar> \<le> (?s + ?p) / 2 ^ 53" .
  from p2 cd1 have "?s + ?p \<le> ?s + ?c + ?c / 2 ^ 53" by linarith
  then have "(?s + ?p) / 2 ^ 53 \<le> (?s + ?c + ?c / 2 ^ 53) / 2 ^ 53"
    by (simp add: divide_right_mono)
  with b have b1: "?s + ?p - (?s + ?c + ?c / 2 ^ 53) / 2 ^ 53 \<le> ?b" by linarith
  from sc s c have s40: "?s \<le> 2 ^ 40" and c40: "?c \<le> 2 ^ 40" by linarith+
  have "?s + ?c * q - 1 / 16 \<le> ?b"
    using b1 p1 cq s40 c40 s c by (simp add: field_simps)
  then show ?thesis by (simp only: d)
qed

lemma sentence_bound_lower:
  assumes "0 \<le> start" and "0 \<le> chunkSize" and "start + chunkSize \<le> 2 ^ 40"
  shows "of_int start + of_int chunkSize * (7 / 10) - 1 / 16 \<le> sentence_bound start chunkSize"
  unfolding sentence_bound_def
  by (rule double_bound_lower [OF assms literal_0_7]) simp_all

lemma space_bound_lower:
  assumes "0 \<le> start" and "0 \<le> chunkSize" and "start + chunkSize \<le> 2 ^ 40"
  shows "of_int start + of_int chunkSize * (8 / 10) - 1 / 16 \<le> space_bound start chunkSize"
  unfolding space_bound_def
  by (rule double_bound_lower [OF assms literal_0_8]) simp_all

lemma chunk_end_cases:
  "chunk_end txt chunkSize start = start + chunkSize \<or>
   of_int (chunk_end txt chunkSize start - 1) > sentence_bound start chunkSize \<or>
   of_int (chunk_end txt chunkSize start) > space_bound start chunkSize"
  unfolding chunk_end_def Let_def
  by (simp only: split: if_splits) auto

text \<open>
  The loop makes progress, and so returns, when \<open>chunkSize\<close> is positive and
  \<open>overlap\<close> is at most \<open>0.7 * chunkSize\<close>, as with the \<open>(1000, 200)\<close> and \<open>(8000, 500)\<close>
  of the callers (for a text and a \<open>chunkSize\<close> of at most \<open>2 ^ 40\<close> together, far above
  the longest string of the language).
\<close>

lemma chunk_loop_progress:
  assumes "0 < chunkSize" and "10 * overlap \<le> 7 * chunkSize"
    and "0 \<le> start" and "start + chunkSize \<le> 2 ^ 40"
  shows "start < chunk_end txt chunkSize start - overlap"
proof -
  let ?e = "chunk_end txt chunkSize start"
  let ?s = "of_int start :: rat" and ?c = "of_int chunkSize :: rat" and ?v = "of_int overlap :: rat"
  from assms(1) have c0: "0 \<le> chunkSize" by simp
  from assms(1) have c1: "1 \<le> ?c" by simp
  from assms(2) have "(of_int (10 * overlap) :: rat) \<le> of_int (7 * chunkSize)"
    by (simp only: of_int_le_iff)
  then have v: "10 * ?v \<le> 7 * ?c" by simp
  note b7 = sentence_bound_lower [OF assms(3) c0 assms(4)]
  note b8 = space_bound_lower [OF assms(3) c0 assms(4)]
  from chunk_end_cases [of "txt" chunkSize start]
  consider (raw) "?e = start + chunkSize"
    | (sentence) "of_int (?e - 1) > sentence_bound start chunkSize"
    | (space) "of_int ?e > space_bound start chunkSize"
    by blast
  then show ?thesis
  proof cases
    case raw
    with assms(1,2) show ?thesis by linarith
  next
    case sentence
    with b7 v have "(of_int (?e - 1) :: rat) > ?s + ?v - 1" by (simp add: field_simps)
    then have "(of_int (?e - 1) :: rat) > of_int (start + overlap - 1)" by simp
    then have "?e - 1 > start + overlap - 1" by (simp only: of_int_less_iff)
    then show ?thesis by linarith
  next
    case space
    with b8 v c1 have "(of_int ?e :: rat) > ?s + ?v" by (simp add: field_simps)
    then have "(of_int ?e :: rat) > of_int (start + overlap)" by simp
    then have "?e > start + overlap" by (simp only: of_int_less_iff)
    then show ?thesis by linarith
  qed
qed

lemma chunk_loop_terminates:
  assumes "0 < chunkSize" and "10 * overlap \<le> 7 * chunkSize"
    and "int (length txt) + chunkSize \<le> 2 ^ 40" and "0 \<le> start"
  shows "\<exists>r. chunk_loop txt chunkSize overlap start chunks = Some r"
  using assms(4)
proof (induction "nat (int (length txt) - start)" arbitrary: start chunks rule: less_induct)
  case less
  show ?case
  proof (cases "start < int (length txt)")
    case False
    then show ?thesis
      by (subst chunk_loop.simps) simp
  next
    case True
    let ?e = "chunk_end txt chunkSize start"
    let ?c = "trim (slice_string txt start ?e)"
    let ?chunks = "if length ?c > 0 then chunks @ [?c] else chunks"
    show ?thesis
    proof (cases "?e - overlap \<ge> int (length txt)")
      case stop: True
      with True show ?thesis
        by (subst chunk_loop.simps) (simp add: Let_def)
    next
      case go: False
      from True assms(3) have le: "start + chunkSize \<le> 2 ^ 40" by linarith
      from chunk_loop_progress [OF assms(1,2) less.prems le, of "txt"]
      have pr: "start < ?e - overlap" .
      with True have m: "nat (int (length txt) - (?e - overlap)) < nat (int (length txt) - start)"
        by linarith
      from pr less.prems have nn: "0 \<le> ?e - overlap" by linarith
      from less.hyps [OF m nn, of ?chunks]
      obtain r where "chunk_loop txt chunkSize overlap (?e - overlap) ?chunks = Some r" ..
      with True go show ?thesis
        by (subst chunk_loop.simps) (simp add: Let_def)
    qed
  qed
qed

lemma chunkText_terminates:
  assumes "0 < chunkSize" and "10 * overlap \<le> 7 * chunkSize"
    and "int (length txt) + chunkSize \<le> 2 ^ 40"
  shows "\<exists>chunks. chunkText txt chunkSize overlap = Some chunks"
proof -
  have "(0::int) \<le> 0" by simp
  from chunk_loop_terminates [OF assms this] show ?thesis
    by (simp add: chunkText_def)
qed

lemma chunk_loop_stall:
  assumes "start < int (length txt)" and "chunk_end txt chunkSize start - overlap = start"
  shows "chunk_loop txt chunkSize overlap start chunks = None"
proof (rule ccontr)
  assume "chunk_loop txt chunkSize overlap start chunks \<noteq> None"
  then obtain r where r: "chunk_loop txt chunkSize overlap start chunks = Some r" by auto
  have "(txt = txt \<and> chunkSize = chunkSize \<and> overlap = overlap \<and> start = start) \<longrightarrow> False"
    apply (rule chunk_loop.raw_induct
        [where P = "\<lambda>t c v s acc y. (t = txt \<and> c = chunkSize \<and> v = overlap \<and> s = start) \<longrightarrow> False",
          OF _ r])
    subgoal premises prems for f t c v s acc y
    proof
      assume eq: "t = txt \<and> c = chunkSize \<and> v = overlap \<and> s = start"
      with prems(2) assms obtain acc' where "f txt chunkSize overlap start acc' = Some y"
        by (auto simp: Let_def split: if_splits)
      from prems(1) [OF this] show False by simp
    qed
    done
  then show False by simp
qed

text \<open>
  C5 at \<open>chunkSize = 10\<close> and \<open>overlap = 9\<close>, on a text whose full stop at index 8
  pulls the first cut back to 9: the next window starts at 0 again, and
  \<open>chunkText\<close> never returns.
\<close>

theorem chunkText_no_progress:
  "(9::int) < 10 \<and>
   chunk_end (js ''aaaaaaaa.bbbbbbbbbbbb'') 10 0 - 9 = 0 \<and>
   chunkText (js ''aaaaaaaa.bbbbbbbbbbbb'') 10 9 = None"
proof -
  let ?s = "js ''aaaaaaaa.bbbbbbbbbbbb''"
  have e: "chunk_end ?s 10 0 - 9 = 0"
    by (simp add: chunk_defs)
  have l: "0 < int (length ?s)" "\<not> int (length ?s) \<le> 10" "?s \<noteq> []"
    by (simp_all add: js_def)
  from chunk_loop_stall [OF l(1) e] l(2,3) have "chunkText ?s 10 9 = None"
    by (simp add: chunkText_def)
  with e show ?thesis by simp
qed


subsection \<open>The chunks returned\<close>

lemma trim_last: "trim s \<noteq> [] \<Longrightarrow> \<not> is_ws (last (trim s))"
proof -
  assume ne: "trim s \<noteq> []"
  let ?zs = "dropWhile is_ws (rev (dropWhile is_ws s))"
  from ne have "?zs \<noteq> []" by (simp add: trim_def)
  then have "\<not> is_ws (hd ?zs)" by (rule hd_dropWhile)
  moreover from \<open>?zs \<noteq> []\<close> have "last (trim s) = hd ?zs"
    by (simp add: trim_def last_rev)
  ultimately show ?thesis by simp
qed

lemma trim_hd: "trim s \<noteq> [] \<Longrightarrow> \<not> is_ws (hd (trim s))"
proof -
  assume ne: "trim s \<noteq> []"
  let ?ys = "dropWhile is_ws s"
  let ?zs = "dropWhile is_ws (rev ?ys)"
  from ne have z: "?zs \<noteq> []" by (simp add: trim_def)
  have y: "?ys \<noteq> []"
  proof
    assume "?ys = []"
    then have "?zs = dropWhile is_ws (rev [])"
      by (rule arg_cong [where f = "\<lambda>y. dropWhile is_ws (rev y)"])
    with z show False by simp
  qed
  have "last (takeWhile is_ws (rev ?ys) @ ?zs) = last ?zs"
    using z by (rule last_appendR)
  then have "last (rev ?ys) = last ?zs"
    by (simp only: takeWhile_dropWhile_id)
  with y have "last ?zs = hd ?ys" by (simp add: last_rev)
  moreover from z have "hd (trim s) = last ?zs" by (simp add: trim_def hd_rev)
  moreover from y have "\<not> is_ws (hd ?ys)" by (rule hd_dropWhile)
  ultimately show ?thesis by simp
qed

lemma trim_fixed:
  assumes "c \<noteq> []" and "\<not> is_ws (hd c)" and "\<not> is_ws (last c)"
  shows "trim c = c"
proof -
  from assms have "dropWhile is_ws c = c" by (cases c) simp_all
  moreover from assms have "dropWhile is_ws (rev c) = rev c"
    by (cases "rev c") (simp_all add: last_rev [symmetric] hd_rev)
  ultimately show ?thesis by (simp add: trim_def)
qed

lemma trim_idem: "trim (trim s) = trim s"
proof (cases "trim s = []")
  case True
  have "trim [] = []" by (simp add: trim_def)
  with True show ?thesis by simp
next
  case False
  from trim_fixed [OF False trim_hd [OF False] trim_last [OF False]] show ?thesis .
qed

lemma chunk_loop_invariant:
  assumes run: "chunk_loop txt chunkSize overlap start acc = Some chunks"
    and step: "\<And>a b. trim (slice_string txt a b) \<noteq> [] \<Longrightarrow> Q (trim (slice_string txt a b))"
    and init: "\<forall>c \<in> set acc. Q c"
  shows "\<forall>c \<in> set chunks. Q c"
proof -
  define R where "R = (\<lambda>t (xs :: jsstring list). t = txt \<longrightarrow> (\<forall>c \<in> set xs. Q c))"
  have app: "R t (if 0 < length (trim (slice_string t a b)) then xs @ [trim (slice_string t a b)] else xs)"
    if "R t xs" for t xs a b
    using that step by (auto simp: R_def)
  have "R txt acc \<longrightarrow> R txt chunks"
  proof (rule chunk_loop.raw_induct [where P = "\<lambda>t c v s acc y. R t acc \<longrightarrow> R t y", OF _ run])
    fix f :: "jsstring \<Rightarrow> int \<Rightarrow> int \<Rightarrow> int \<Rightarrow> jsstring list \<Rightarrow> jsstring list option"
      and t :: jsstring and c v s :: int and xs y :: "jsstring list"
    assume IH: "\<And>t c v s xs y. f t c v s xs = Some y \<Longrightarrow> R t xs \<longrightarrow> R t y"
    assume body: "(if s < int (length t)
      then let endpos = chunk_end t c s;
               chunk = trim (slice_string t s endpos);
               chunks' = if 0 < length chunk then xs @ [chunk] else xs;
               start' = endpos - v
           in if int (length t) \<le> start' then Some chunks'
              else f t c v start' chunks'
      else Some xs) = Some y"
    let ?e = "chunk_end t c s"
    let ?xs = "if 0 < length (trim (slice_string t s ?e)) then xs @ [trim (slice_string t s ?e)] else xs"
    show "R t xs \<longrightarrow> R t y"
    proof
      assume inv: "R t xs"
      from app [OF inv] have inv': "R t ?xs" .
      consider (finished) "\<not> s < int (length t)" | (stop) "s < int (length t)" "int (length t) \<le> ?e - v"
        | (go) "s < int (length t)" "\<not> int (length t) \<le> ?e - v"
        by blast
      then show "R t y"
      proof cases
        case finished
        with body have "y = xs" by simp
        with inv show ?thesis by simp
      next
        case stop
        with body have "y = ?xs" by (simp add: Let_def)
        with inv' show ?thesis by simp
      next
        case go
        with body have "f t c v (?e - v) ?xs = Some y" by (simp add: Let_def)
        from IH [OF this] inv' show ?thesis by simp
      qed
    qed
  qed
  with init show ?thesis by (simp add: R_def)
qed

text \<open>
  C6, amended. Whenever \<open>chunkText\<close> returns: for a non-empty text longer than
  \<open>chunkSize\<close> every chunk is the trimmed text of a window and is not empty (a window
  that is empty after trimming leaves no chunk), so it has no whitespace at either
  end; for an empty text or one of at most \<open>chunkSize\<close> characters the result is the
  text itself as the single chunk, neither trimmed nor dropped when empty. In both
  cases \<open>chunkTextWithMetadata\<close> attaches to every piece the number of chunks
  returned as \<open>totalChunks\<close>.
\<close>

theorem chunkText_chunks:
  assumes "chunkText txt chunkSize overlap = Some chunks"
  shows "(txt \<noteq> [] \<and> chunkSize < int (length txt) \<longrightarrow>
            (\<forall>c \<in> set chunks.
               c \<noteq> [] \<and> trim c = c \<and> \<not> is_ws (hd c) \<and> \<not> is_ws (last c) \<and>
               (\<exists>a b. c = trim (slice_string txt a b)))) \<and>
         (txt = [] \<or> int (length txt) \<le> chunkSize \<longrightarrow> chunks = [txt]) \<and>
         (\<exists>pieces.
            chunkTextWithMetadata txt fname chunkSize overlap = Some pieces \<and>
            map chunk_text pieces = chunks \<and>
            (\<forall>p \<in> set pieces. totalChunks (chunk_metadata p) = length chunks))"
proof (intro conjI impI)
  assume long: "txt \<noteq> [] \<and> chunkSize < int (length txt)"
  with assms have loop: "chunk_loop txt chunkSize overlap 0 [] = Some chunks"
    by (simp add: chunkText_def)
  define Q where "Q = (\<lambda>c. c \<noteq> [] \<and> trim c = c \<and> \<not> is_ws (hd c) \<and> \<not> is_ws (last c) \<and>
                         (\<exists>a b. c = trim (slice_string txt a b)))"
  have step: "Q (trim (slice_string txt a b))" if "trim (slice_string txt a b) \<noteq> []" for a b
    unfolding Q_def
  proof (intro conjI)
    show "trim (slice_string txt a b) \<noteq> []" by (rule that)
    show "trim (trim (slice_string txt a b)) = trim (slice_string txt a b)" by (rule trim_idem)
    show "\<not> is_ws (hd (trim (slice_string txt a b)))" by (rule trim_hd [OF that])
    show "\<not> is_ws (last (trim (slice_string txt a b)))" by (rule trim_last [OF that])
    show "\<exists>a' b'. trim (slice_string txt a b) = trim (slice_string txt a' b')" by blast
  qed
  have init: "\<forall>c \<in> set ([] :: jsstring list). Q c" by simp
  from chunk_loop_invariant [OF loop step init]
  have "\<forall>c \<in> set chunks. Q c" .
  then show "\<forall>c \<in> set chunks.
          c \<noteq> [] \<and> trim c = c \<and> \<not> is_ws (hd c) \<and> \<not> is_ws (last c) \<and>
          (\<exists>a b. c = trim (slice_string txt a b))"
    unfolding Q_def .
next
  assume "txt = [] \<or> int (length txt) \<le> chunkSize"
  with assms show "chunks = [txt]"
    by (auto simp: chunkText_def)
next
  let ?pieces = "map (\<lambda>(chunk, index).
                  \<lparr>chunk_text = chunk,
                   chunk_metadata =
                     \<lparr>chunk_filename = fname, chunkIndex = index, totalChunks = length chunks,
                      chunkSize_of = length chunk, originalTextLength = length txt\<rparr>\<rparr>)
                (zip chunks [0..<length chunks])"
  have "chunk_text \<circ> (\<lambda>(chunk, index).
                  \<lparr>chunk_text = chunk,
                   chunk_metadata =
                     \<lparr>chunk_filename = fname, chunkIndex = index, totalChunks = length chunks,
                      chunkSize_of = length chunk, originalTextLength = length txt\<rparr>\<rparr>) = fst"
    by (simp add: fun_eq_iff)
  then have "map chunk_text ?pieces = map fst (zip chunks [0..<length chunks])"
    by (simp only: map_map)
  also have "\<dots> = chunks" by simp
  finally have m: "map chunk_text ?pieces = chunks" .
  have "\<forall>p \<in> set ?pieces. totalChunks (chunk_metadata p) = length chunks"
    by auto
  with assms m
  show "\<exists>pieces.
          chunkTextWithMetadata txt fname chunkSize overlap = Some pieces \<and>
          map chunk_text pieces = chunks \<and>
          (\<forall>p \<in> set pieces. totalChunks (chunk_metadata p) = length chunks)"
    by (intro exI [of _ ?pieces]) (simp add: chunkTextWithMetadata_def)
qed

theorem chunkText_chunks_witness:
  "chunkText (js ''abcd        efgh'') 4 0 = Some [js ''abcd'', js ''efgh''] \<and>
   trim (js ''abcd'') = js ''abcd'' \<and> trim (js ''efgh'') = js ''efgh'' \<and>
   (\<exists>pieces.
      chunkTextWithMetadata (js ''abcd        efgh'') (js ''notes.txt'') 4 0 = Some pieces \<and>
      map chunk_text pieces = [js ''abcd'', js ''efgh''] \<and>
      map (\<lambda>p. totalChunks (chunk_metadata p)) pieces = [2, 2]) \<and>
   chunkText (js ''hi'') 10 2 = Some [js ''hi'']"
proof -
  let ?w = "js ''abcd        efgh''"
  have e: "chunkText ?w 4 0 = Some [js ''abcd'', js ''efgh'']"
    by (simp add: chunk_loop_defs)
  have h: "chunkText (js ''hi'') 10 2 = Some [js ''hi'']"
    by (simp add: chunkText_def js_def)
  have l: "?w \<noteq> [] \<and> 4 < int (length ?w)"
    by (simp add: js_def)
  from chunkText_chunks [OF e, of "js ''notes.txt''"] l
  have a: "\<forall>c \<in> set [js ''abcd'', js ''efgh'']. c \<noteq> [] \<and> trim c = c"
    and ex: "\<exists>pieces.
      chunkTextWithMetadata ?w (js ''notes.txt'') 4 0 = Some pieces \<and>
      map chunk_text pieces = [js ''abcd'', js ''efgh''] \<and>
      (\<forall>p \<in> set pieces. totalChunks (chunk_metadata p) = length [js ''abcd'', js ''efgh''])"
    by blast+
  from ex obtain pieces where p: "chunkTextWithMetadata ?w (js ''notes.txt'') 4 0 = Some pieces"
    "map chunk_text pieces = [js ''abcd'', js ''efgh'']"
    "\<forall>p \<in> set pieces. totalChunks (chunk_metadata p) = length [js ''abcd'', js ''efgh'']"
    by (elim exE conjE)
  have "length (map chunk_text pieces) = length [js ''abcd'', js ''efgh'']"
    by (simp only: p(2))
  then have "length pieces = Suc (Suc 0)"
    by simp
  then obtain p1 p2 where pp: "pieces = [p1, p2]"
    by (auto simp: length_Suc_conv)
  have two: "length [js ''abcd'', js ''efgh''] = 2"
    by simp
  from p(3) have "totalChunks (chunk_metadata p1) = 2" "totalChunks (chunk_metadata p2) = 2"
    unfolding pp two by simp_all
  then have t: "map (\<lambda>p. totalChunks (chunk_metadata p)) pieces = [2, 2]"
    unfolding pp by simp
  have b: "\<exists>pieces.
      chunkTextWithMetadata ?w (js ''notes.txt'') 4 0 = Some pieces \<and>
      map chunk_text pieces = [js ''abcd'', js ''efgh''] \<and>
      map (\<lambda>p. totalChunks (chunk_metadata p)) pieces = [2, 2]"
    by (intro exI [of _ pieces] conjI p(1) p(2) t)
  from a have a': "trim (js ''abcd'') = js ''abcd''" "trim (js ''efgh'') = js ''efgh''"
    by simp_all
  show ?thesis
    by (intro conjI e a' b h)
qed

text \<open>
  C6 as stated fails for a short text: it is returned with its surrounding
  whitespace, and the empty text is returned as one empty chunk, counted in
  \<open>totalChunks\<close>.
\<close>

theorem short_text_returned_untrimmed:
  "chunkText (js '' hi '') 10 2 = Some [js '' hi ''] \<and>
   trim (js '' hi '') = js ''hi'' \<and>
   chunkText [] 10 2 = Some [[]] \<and>
   chunkTextWithMetadata [] (js ''notes.txt'') 10 2 =
     Some [\<lparr>chunk_text = [],
            chunk_metadata =
              \<lparr>chunk_filename = js ''notes.txt'', chunkIndex = 0, totalChunks = 1,
               chunkSize_of = 0, originalTextLength = 0\<rparr>\<rparr>]"
  by (simp add: chunkText_def chunkTextWithMetadata_def trim_def is_ws_def js_def)

end
